theory Spec2Isabelle
  imports Main "HOL-Library.Word" "HOL-Library.Signed_Division" "HOL-Library.List_Lexorder"
begin

section \<open>Machine integers\<close>

text \<open>
  Go's \<open>int64\<close>, \<open>uint64\<close> and (on a 64-bit platform) \<open>int\<close> are 64-bit words:
  \<open>+\<close>, \<open>-\<close> and \<open>*\<close> wrap around. Signed comparison is \<open><s\<close> and \<open>\<le>s\<close>, unsigned
  comparison is \<open><\<close> and \<open>\<le>\<close>. Go's \<open>/\<close> and \<open>%\<close> on signed integers truncate towards
  zero. A byte slice is a list of 8-bit words.
\<close>

type_synonym int64 = "64 word"
type_synonym uint64 = "64 word"
type_synonym bytes = "8 word list"
type_synonym address = bytes

definition go_div :: "int64 \<Rightarrow> int64 \<Rightarrow> int64" where
  "go_div a b = word_of_int (sint a sdiv sint b)"

definition go_mod :: "int64 \<Rightarrow> int64 \<Rightarrow> int64" where
  "go_mod a b = word_of_int (sint a smod sint b)"

section \<open>Protocol constants\<close>

text \<open>
  Modelled from the spec: the constant declarations of package \<open>pod\<close> are not part of
  \<open>pod.go\<close>; the values are the ones the specification fixes for its scenarios
  (\<open>SecondMs = 1000\<close>, \<open>BlockIntervalMs = 15000\<close>, \<open>DynastyIntervalMs = 3600000\<close>,
  \<open>MinMintDurationMs = 2200\<close>, \<open>MaxMintDurationMs = 5200\<close>, \<open>ConsensusSize = 85\<close>).
\<close>

definition SecondInMs :: int64 where "SecondInMs = 1000"
definition BlockIntervalInMs :: int64 where "BlockIntervalInMs = 15000"
definition DynastyIntervalInMs :: int64 where "DynastyIntervalInMs = 3600000"
definition MinMintDurationInMs :: int64 where "MinMintDurationInMs = 2200"
definition MaxMintDurationInMs :: int64 where "MaxMintDurationInMs = 5200"
definition ConsensusSize :: int64 where "ConsensusSize = 85"

section \<open>Data\<close>

datatype error =
    ErrInvalidBlockTimestamp
  | ErrInvalidBlockInterval
  | ErrInvalidBlockProposer
  | ErrInvalidBlockRandom
  | ErrBlockMintedInNextSlot
  | ErrWaitingBlockInLastSlot
  | ErrNoHeartbeatWhenDisable
  | ErrMinerNotSignUp
  | ErrCollaborator string

datatype algorithm = SECP256K1 | OtherAlgorithm nat

record consensus_root =
  cr_Timestamp :: int64
  Proposer :: bytes

record block =
  Height :: uint64
  Timestamp :: int64
  Hash :: bytes
  ParentHash :: bytes
  Miner :: address
  ConsensusRoot :: consensus_root
  Alg :: algorithm
  Signature :: bytes
  HasRandomSeed :: bool

datatype evil = AttackDoubleSpend | AttackNotMiner

record report =
  rp_Timestamp :: int64
  rp_Miner :: string
  rp_Evil :: evil

datatype action = PoDReport | PoDHeartbeat | PoDState

record pod_payload =
  pp_Serial :: int64
  pp_Action :: action
  pp_Data :: bytes

datatype payload_type = TxPayloadPodType

record transaction =
  tx_chainID :: "32 word"
  tx_from :: address
  tx_to :: address
  tx_value :: nat
  tx_nonce :: uint64
  tx_payloadType :: payload_type
  tx_payload :: bytes
  tx_gasPrice :: nat
  tx_gasLimit :: nat
  tx_timestamp :: int64
  tx_hash :: bytes
  tx_sign :: "(algorithm \<times> bytes) option"

datatype topic = TopicLibBlock

text \<open>
  The operations that change something outside the local variables of a function, in the
  order in which they take effect: writes to the chain store, the LIB pointer, the
  reversible cache, the event emitter, the network and the transaction pool.
\<close>

datatype operation =
    OpStoreLIBHash bytes
  | OpSetLIB bytes
  | OpReversibleRemove bytes
  | OpTrigger topic string
  | OpSetTailBlock bytes
  | OpBroadcastWitness "bytes list"
  | OpPushTransaction transaction

subsection \<open>The LRU caches\<close>

text \<open>
  Modelled from the spec: the slot cache and the reversible cache are bounded mappings of
  size 128 with LRU eviction (the cache library is not part of the repository). A cache is
  the list of its entries, the most recently used first. The hex string that keys the
  reversible cache renders the hash one-to-one, so the key is the hash itself.
\<close>

type_synonym ('k, 'v) lru = "('k \<times> 'v) list"

definition lru_size :: nat where
  "lru_size = 128"

definition lru_Remove :: "'k \<Rightarrow> ('k, 'v) lru \<Rightarrow> ('k, 'v) lru" where
  "lru_Remove k c = filter (\<lambda>e. fst e \<noteq> k) c"

definition lru_Peek :: "'k \<Rightarrow> ('k, 'v) lru \<Rightarrow> 'v option" where
  "lru_Peek k c = map_of c k"

definition lru_Get :: "'k \<Rightarrow> ('k, 'v) lru \<Rightarrow> 'v option \<times> ('k, 'v) lru" where
  "lru_Get k c =
     (case map_of c k of
        None \<Rightarrow> (None, c)
      | Some v \<Rightarrow> (Some v, (k, v) # lru_Remove k c))"

definition lru_Add :: "'k \<Rightarrow> 'v \<Rightarrow> ('k, 'v) lru \<Rightarrow> ('k, 'v) lru" where
  "lru_Add k v c = take lru_size ((k, v) # lru_Remove k c)"

subsection \<open>The engine and its collaborators\<close>

text \<open>
  The state that \<open>pod.go\<close> reads and writes: the fields of \<open>PoD\<close> together with the tail,
  the LIB, the detached tails and the block index of the chain it points to, and the
  operations performed so far. \<open>miner\<close> is the configured miner address.
\<close>

record pod =
  tail :: block
  lib :: block
  detachedTailBlocks :: "block list"
  blocks :: "bytes \<rightharpoonup> block"
  slot :: "(int64, block) lru"
  reversible :: "(bytes, bytes) lru"
  enable :: bool
  pending :: bool
  launchBeat :: bool
  miner :: address
  enableRemoteSignServer :: bool
  remoteSignServer :: string
  operations :: "operation list"

text \<open>
  The collaborators of the engine that are not part of \<open>pod.go\<close> (chain store, dynasty
  registry, account manager, pools, network, RPC, address and byte utilities). Each call
  that can fail returns its error; what a call answers is a parameter of the model.
\<close>

record 'trie env =
  NodeUpdateAtHeight :: "uint64 \<Rightarrow> bool"
  RandomAvailableAtHeight :: "uint64 \<Rightarrow> bool"
  CheckGenesisBlock :: "block \<Rightarrow> bool"
  isProposer :: "int64 \<Rightarrow> bytes \<Rightarrow> bool \<times> error option"
  getDynasty :: "int64 \<Rightarrow> error + 'trie"
  TraverseDynasty :: "'trie \<Rightarrow> error + bytes list"
  FindProposer :: "int64 \<Rightarrow> bytes list \<Rightarrow> error + bytes"
  getParticipants :: "error + string list"
  AddressParseFromBytes :: "bytes \<Rightarrow> error + address"
  AddressString :: "address \<Rightarrow> string"
  BlockString :: "block \<Rightarrow> string"
  RecoverSignerFromSignature :: "algorithm \<Rightarrow> bytes \<Rightarrow> bytes \<Rightarrow> error + address"
  broadcastWitness :: "bytes list \<Rightarrow> error option"
  StoreLIBHashToStorage :: "block \<Rightarrow> error option"
  SetTailBlockError :: "block \<Rightarrow> error option"
  ReportToBytes :: "report \<Rightarrow> bytes \<times> error option"
  NewPodPayload :: "int64 \<Rightarrow> action \<Rightarrow> bytes \<Rightarrow> error + pod_payload"
  PodPayloadToBytes :: "pod_payload \<Rightarrow> error + bytes"
  GetAccountNonce :: "block \<Rightarrow> bytes \<Rightarrow> error + uint64"
  ChainID :: "32 word"
  PoDContract :: address
  TransactionMaxGasPrice :: nat
  TransactionMaxGas :: nat
  NewTransactionError :: "transaction \<Rightarrow> error option"
  HashTransaction :: "transaction \<Rightarrow> error + bytes"
  SignTransaction :: "address \<Rightarrow> transaction \<Rightarrow> error + (algorithm \<times> bytes)"
  rpcDial :: "string \<Rightarrow> error option"
  rpcSignHash :: "string \<Rightarrow> bytes \<Rightarrow> algorithm \<Rightarrow> error + bytes"
  PushAndBroadcastTx :: "transaction \<Rightarrow> error option"

section \<open>Timing primitives\<close>

definition lastSlot :: "int64 \<Rightarrow> int64" where
  "lastSlot nowInMs = go_div (nowInMs - SecondInMs) BlockIntervalInMs * BlockIntervalInMs"

definition nextSlot :: "int64 \<Rightarrow> int64" where
  "nextSlot nowInMs =
     go_div (nowInMs + BlockIntervalInMs - SecondInMs) BlockIntervalInMs * BlockIntervalInMs"

definition deadline :: "int64 \<Rightarrow> int64" where
  "deadline nowInMs =
     (let nextSlotInMs = nextSlot nowInMs;
          remainInMs = nextSlotInMs - nowInMs
      in if remainInMs <s MaxMintDurationInMs then nextSlotInMs
         else nowInMs + MaxMintDurationInMs)"

definition checkDeadline :: "block \<Rightarrow> int64 \<Rightarrow> error + int64" where
  "checkDeadline tailBlock nowInMs =
     (let lastSlotInMs = lastSlot nowInMs;
          nextSlotInMs = nextSlot nowInMs
      in if nextSlotInMs \<le>s Timestamp tailBlock * SecondInMs then Inl ErrBlockMintedInNextSlot
         else if Timestamp tailBlock * SecondInMs = lastSlotInMs then Inr (deadline nowInMs)
         else if nextSlotInMs - nowInMs \<le>s MinMintDurationInMs then Inr (deadline nowInMs)
         else Inl ErrWaitingBlockInLastSlot)"

text \<open>
  Modelled from the spec: \<open>serial(ts_s) = (ts_s \<cdot> SecondMs) / DynastyIntervalMs\<close>; the
  dynasty registry that defines \<open>serial\<close> is not part of \<open>pod.go\<close>.
\<close>

definition serial :: "int64 \<Rightarrow> int64" where
  "serial timestamp = go_div (timestamp * SecondInMs) DynastyIntervalInMs"

section \<open>Governance transactions\<close>

definition remoteSign :: "'trie env \<Rightarrow> pod \<Rightarrow> algorithm \<Rightarrow> bytes \<Rightarrow> error + bytes" where
  "remoteSign env s alg h =
     (case rpcDial env (remoteSignServer s) of
        Some e \<Rightarrow> Inl e
      | None \<Rightarrow>
          (case rpcSignHash env (AddressString env (miner s)) h alg of
             Inl e \<Rightarrow> Inl e
           | Inr dat \<Rightarrow> Inr dat))"

definition signTransaction :: "'trie env \<Rightarrow> pod \<Rightarrow> transaction \<Rightarrow> error + transaction" where
  "signTransaction env s tx =
     (if enableRemoteSignServer s then
        (case remoteSign env s SECP256K1 (tx_hash tx) of
           Inl e \<Rightarrow> Inl e
         | Inr sign \<Rightarrow> Inr (tx\<lparr>tx_sign := Some (SECP256K1, sign)\<rparr>))
      else
        (case SignTransaction env (miner s) tx of
           Inl e \<Rightarrow> Inl e
         | Inr sg \<Rightarrow> Inr (tx\<lparr>tx_sign := Some sg\<rparr>)))"

text \<open>
  \<open>sendTransaction\<close> returns the error of the first step that fails; the transaction
  reaches the pool, and is recorded as pushed, only when every step succeeds.
  \<open>core.NewTransaction\<close> fills the transaction from its arguments or rejects them.
\<close>

definition sendTransaction ::
  "'trie env \<Rightarrow> pod \<Rightarrow> int64 \<Rightarrow> action \<Rightarrow> bytes \<Rightarrow> error option \<times> pod" where
  "sendTransaction env s timestamp act dat =
     (case NewPodPayload env (serial timestamp) act dat of
        Inl e \<Rightarrow> (Some e, s)
      | Inr payload \<Rightarrow>
     (case PodPayloadToBytes env payload of
        Inl e \<Rightarrow> (Some e, s)
      | Inr bs \<Rightarrow>
     (case GetAccountNonce env (tail s) (miner s) of
        Inl e \<Rightarrow> (Some e, s)
      | Inr accNonce \<Rightarrow>
     (let nonce = accNonce + 1;
          tx0 = \<lparr>tx_chainID = ChainID env, tx_from = miner s, tx_to = PoDContract env,
                 tx_value = 0, tx_nonce = nonce, tx_payloadType = TxPayloadPodType,
                 tx_payload = bs, tx_gasPrice = TransactionMaxGasPrice env,
                 tx_gasLimit = TransactionMaxGas env, tx_timestamp = 0, tx_hash = [],
                 tx_sign = None\<rparr>
      in case NewTransactionError env tx0 of
        Some e \<Rightarrow> (Some e, s)
      | None \<Rightarrow>
     (let tx1 = tx0\<lparr>tx_timestamp := timestamp\<rparr>
      in case HashTransaction env tx1 of
        Inl e \<Rightarrow> (Some e, s)
      | Inr h \<Rightarrow>
     (let tx2 = tx1\<lparr>tx_hash := h\<rparr>
      in case signTransaction env s tx2 of
        Inl e \<Rightarrow> (Some e, s)
      | Inr tx3 \<Rightarrow>
     (case PushAndBroadcastTx env tx3 of
        Some e \<Rightarrow> (Some e, s)
      | None \<Rightarrow> (None, s\<lparr>operations := operations s @ [OpPushTransaction tx3]\<rparr>))))))))"

definition heartbeat :: "'trie env \<Rightarrow> pod \<Rightarrow> int64 \<Rightarrow> error option \<times> pod" where
  "heartbeat env s now =
     (if \<not> enable s then (Some ErrNoHeartbeatWhenDisable, s)
      else if \<not> NodeUpdateAtHeight env (Height (tail s)) then (None, s)
      else if launchBeat s \<and>
              go_mod (now * SecondInMs + go_div DynastyIntervalInMs 2) DynastyIntervalInMs \<noteq> 0
           then (None, s)
      else
        let s1 = s\<lparr>launchBeat := True\<rparr>
        in case getParticipants env of
             Inl e \<Rightarrow> (Some e, s1)
           | Inr participants \<Rightarrow>
               let minerSignUp = list_ex (\<lambda>v. AddressString env (miner s1) = v) participants
               in if minerSignUp then sendTransaction env s1 now PoDHeartbeat []
                  else (Some ErrMinerNotSignUp, s1))"

section \<open>Evil detector\<close>

definition reportEvil :: "'trie env \<Rightarrow> pod \<Rightarrow> block \<Rightarrow> block \<Rightarrow> pod" where
  "reportEvil env s preBlock blk =
     (if \<not> enable s \<or> \<not> NodeUpdateAtHeight env (Height (tail s)) then s
      else
        let found = fst (isProposer env (Timestamp blk) (miner s))
        in if found then
             let evil = (if Miner preBlock = Miner blk then AttackDoubleSpend else AttackNotMiner);
                 rep = \<lparr>rp_Timestamp = Timestamp blk,
                        rp_Miner = AddressString env (Miner blk),
                        rp_Evil = evil\<rparr>;
                 bs = fst (ReportToBytes env rep)
             in snd (sendTransaction env s (Timestamp blk) PoDReport bs)
           else s)"

definition CheckDoubleMint :: "'trie env \<Rightarrow> pod \<Rightarrow> block \<Rightarrow> bool \<times> pod" where
  "CheckDoubleMint env s blk =
     (case lru_Get (Timestamp blk) (slot s) of
        (Some preBlock, c) \<Rightarrow>
          if Hash preBlock \<noteq> Hash blk
          then (True, reportEvil env (s\<lparr>slot := c\<rparr>) preBlock blk)
          else (False, s\<lparr>slot := c\<rparr>)
      | (None, c) \<Rightarrow> (False, s\<lparr>slot := c\<rparr>))"

section \<open>Verification\<close>

definition verifyBlockSign :: "'trie env \<Rightarrow> address \<Rightarrow> block \<Rightarrow> error option" where
  "verifyBlockSign env mnr blk =
     (case RecoverSignerFromSignature env (Alg blk) (Hash blk) (Signature blk) of
        Inl e \<Rightarrow> Some e
      | Inr signer \<Rightarrow> if mnr \<noteq> signer then Some ErrInvalidBlockProposer else None)"

definition VerifyBlock :: "'trie env \<Rightarrow> pod \<Rightarrow> block \<Rightarrow> error option \<times> pod" where
  "VerifyBlock env s blk =
     (if Timestamp blk \<noteq> cr_Timestamp (ConsensusRoot blk) then (Some ErrInvalidBlockTimestamp, s)
      else
        let elapsedSecondInMs = Timestamp blk * SecondInMs
        in if elapsedSecondInMs \<le>s 0 \<or> go_mod elapsedSecondInMs BlockIntervalInMs \<noteq> 0
           then (Some ErrInvalidBlockInterval, s)
           else
     (case getDynasty env (Timestamp blk) of
        Inl e \<Rightarrow> (Some e, s)
      | Inr cs \<Rightarrow>
     (case TraverseDynasty env cs of
        Inl e \<Rightarrow> (Some e, s)
      | Inr miners \<Rightarrow>
     (case FindProposer env (Timestamp blk) miners of
        Inl e \<Rightarrow> (Some e, s)
      | Inr proposer \<Rightarrow>
     (case AddressParseFromBytes env proposer of
        Inl e \<Rightarrow> (Some e, s)
      | Inr mnr \<Rightarrow>
     (case verifyBlockSign env mnr blk of
        Some e \<Rightarrow> (Some e, s)
      | None \<Rightarrow>
          if RandomAvailableAtHeight env (Height blk) \<and> \<not> HasRandomSeed blk
          then (Some ErrInvalidBlockRandom, s)
          else (None, s\<lparr>slot := lru_Add (Timestamp blk) blk (slot s)\<rparr>)))))))"

section \<open>Fork choice\<close>

text \<open>
  Modelled from the spec: \<open>less(a, b) := (a.height, a.hash) <lex (b.height, b.hash)\<close>;
  \<open>byteutils.Less\<close> is not part of \<open>pod.go\<close>, and compares two hashes as byte strings,
  lexicographically.
\<close>

definition byteutils_Less :: "bytes \<Rightarrow> bytes \<Rightarrow> bool" where
  "byteutils_Less a b = (a < b)"

definition less_block :: "block \<Rightarrow> block \<Rightarrow> bool" where
  "less_block a b =
     (if Height a \<noteq> Height b then Height a < Height b
      else byteutils_Less (Hash a) (Hash b))"

text \<open>
  Modelled from the spec: \<open>set_tail_block\<close> of the chain (not part of \<open>pod.go\<close>) makes the
  given block the tail; it can fail, and then returns its error and the tail stays.
\<close>

definition SetTailBlock :: "'trie env \<Rightarrow> pod \<Rightarrow> block \<Rightarrow> error + pod" where
  "SetTailBlock env s newTail =
     (case SetTailBlockError env newTail of
        Some e \<Rightarrow> Inl e
      | None \<Rightarrow>
          Inr (s\<lparr>tail := newTail,
                 operations := operations s @ [OpSetTailBlock (Hash newTail)]\<rparr>))"

definition ForkChoice :: "'trie env \<Rightarrow> pod \<Rightarrow> error option \<times> pod" where
  "ForkChoice env s =
     (let tailBlock = tail s;
          newTailBlock = foldl (\<lambda>nt v. if less_block nt v then v else nt) tailBlock
                           (detachedTailBlocks s)
      in if Hash newTailBlock = Hash tailBlock then (None, s)
         else (case SetTailBlock env s newTailBlock of
                 Inl e \<Rightarrow> (Some e, s)
               | Inr s' \<Rightarrow> (None, s')))"

section \<open>LIB finalizer\<close>

text \<open>
  \<open>setLib\<close>: nothing happens when persisting fails; otherwise the hash is persisted, the
  LIB pointer moves, the hash leaves the reversible cache and the event is emitted, in
  this order.
\<close>

definition setLib :: "'trie env \<Rightarrow> pod \<Rightarrow> block \<Rightarrow> nat \<Rightarrow> pod" where
  "setLib env s blk confirmed =
     (case StoreLIBHashToStorage env blk of
        Some e \<Rightarrow> s
      | None \<Rightarrow>
          let s1 = s\<lparr>operations := operations s @ [OpStoreLIBHash (Hash blk)]\<rparr>;
              s2 = s1\<lparr>lib := blk, operations := operations s1 @ [OpSetLIB (Hash blk)]\<rparr>;
              s3 = s2\<lparr>reversible := lru_Remove (Hash blk) (reversible s2),
                      operations := operations s2 @ [OpReversibleRemove (Hash blk)]\<rparr>
          in s3\<lparr>operations :=
                  operations s3 @ [OpTrigger TopicLibBlock (BlockString env (lib s3))]\<rparr>)"

text \<open>
  The loop of \<open>UpdateLIB\<close>. \<open>miners\<close> is the key set of the Go map, a list without
  duplicates, and \<open>dynasty\<close> the serial of the block visited last. The loop follows
  parent hashes through the block index, so on an index with a cycle it need not return:
  not returning is the value \<open>None\<close>.
\<close>

partial_function (option) UpdateLIB_loop ::
  "'trie env \<Rightarrow> pod \<Rightarrow> block \<Rightarrow> block \<Rightarrow> bytes list \<Rightarrow> int64 \<Rightarrow> pod option" where
  "UpdateLIB_loop env s libBlock cur miners dynasty =
     (if Hash cur = Hash libBlock then Some s
      else
        let curDynasty = go_div (Timestamp cur * SecondInMs) DynastyIntervalInMs;
            miners1 = (if curDynasty \<noteq> dynasty then [] else miners);
            dynasty1 = (if curDynasty \<noteq> dynasty then curDynasty else dynasty)
        in if Height cur - Height libBlock <s ConsensusSize - of_nat (length miners1)
           then Some s
           else
             let miners2 = List.insert (Proposer (ConsensusRoot cur)) miners1
             in if ConsensusSize \<le>s of_nat (length miners2)
                then Some (setLib env s cur (length miners2))
                else (case blocks s (ParentHash cur) of
                        None \<Rightarrow> Some s
                      | Some parent \<Rightarrow>
                          if CheckGenesisBlock env parent then Some s
                          else UpdateLIB_loop env s libBlock parent miners2 dynasty1))"

definition UpdateLIB :: "'trie env \<Rightarrow> pod \<Rightarrow> bytes list \<Rightarrow> pod option" where
  "UpdateLIB env s rversibleBlocks =
     (let s1 =
            (if enable s \<and> NodeUpdateAtHeight env (Height (tail s)) then
               (if fst (isProposer env (Timestamp (tail s)) (miner s)) then
                  (case broadcastWitness env rversibleBlocks of
                     Some e \<Rightarrow> s
                   | None \<Rightarrow>
                       s\<lparr>operations := operations s @ [OpBroadcastWitness rversibleBlocks]\<rparr>)
                else s)
             else s)
      in UpdateLIB_loop env s1 (lib s1) (tail s1) [] (- 1))"

section \<open>Example data\<close>

text \<open>A block with the given height, timestamp, hash, parent hash, miner and proposer.\<close>

definition block_at :: "uint64 \<Rightarrow> int64 \<Rightarrow> bytes \<Rightarrow> bytes \<Rightarrow> address \<Rightarrow> bytes \<Rightarrow> block" where
  "block_at h ts hsh parent mnr prop =
     \<lparr>Height = h, Timestamp = ts, Hash = hsh, ParentHash = parent, Miner = mnr,
      ConsensusRoot = \<lparr>cr_Timestamp = ts, Proposer = prop\<rparr>,
      Alg = SECP256K1, Signature = [], HasRandomSeed = True\<rparr>"


text \<open>
  An environment in which every collaborator succeeds, and a state with a tail at height 3,
  the LIB at height 2 and the LIB's block in the slot cache.
\<close>

definition example_env :: "unit env" where
  "example_env =
     \<lparr>NodeUpdateAtHeight = (\<lambda>h. True),
      RandomAvailableAtHeight = (\<lambda>h. True),
      CheckGenesisBlock = (\<lambda>b. Height b = 1),
      isProposer = (\<lambda>ts m. (True, None)),
      getDynasty = (\<lambda>ts. Inr ()),
      TraverseDynasty = (\<lambda>t. Inr [[7]]),
      FindProposer = (\<lambda>ts ms. Inr [7]),
      getParticipants = Inr [''miner-7''],
      AddressParseFromBytes = (\<lambda>b. Inr b),
      AddressString = (\<lambda>a. if a = [7] then ''miner-7'' else ''miner-other''),
      BlockString = (\<lambda>b. ''block''),
      RecoverSignerFromSignature = (\<lambda>a h sg. Inr [7]),
      broadcastWitness = (\<lambda>hs. None),
      StoreLIBHashToStorage = (\<lambda>b. None),
      SetTailBlockError = (\<lambda>b. None),
      ReportToBytes = (\<lambda>r. ([if rp_Evil r = AttackDoubleSpend then 1 else 2], None)),
      NewPodPayload = (\<lambda>sr a d. Inr \<lparr>pp_Serial = sr, pp_Action = a, pp_Data = d\<rparr>),
      PodPayloadToBytes = (\<lambda>p. Inr (pp_Data p)),
      GetAccountNonce = (\<lambda>b a. Inr 41),
      ChainID = 1,
      PoDContract = [9],
      TransactionMaxGasPrice = 1000,
      TransactionMaxGas = 50000,
      NewTransactionError = (\<lambda>tx. None),
      HashTransaction = (\<lambda>tx. Inr [3]),
      SignTransaction = (\<lambda>a tx. Inr (SECP256K1, [4])),
      rpcDial = (\<lambda>srv. None),
      rpcSignHash = (\<lambda>a h alg. Inr [5]),
      PushAndBroadcastTx = (\<lambda>tx. None)\<rparr>"

definition example_pod :: pod where
  "example_pod =
     \<lparr>tail = block_at 3 30 [3] [2] [7] [7],
      lib = block_at 2 15 [2] [1] [7] [7],
      detachedTailBlocks = [],
      blocks = [[3] \<mapsto> block_at 3 30 [3] [2] [7] [7], [2] \<mapsto> block_at 2 15 [2] [1] [7] [7]],
      slot = [(15, block_at 2 15 [2] [1] [7] [7])],
      reversible = [([3], [3])],
      enable = True,
      pending = False,
      launchBeat = False,
      miner = [7],
      enableRemoteSignServer = False,
      remoteSignServer = [],
      operations = []\<rparr>"

text \<open>Environments in which one collaborator fails.\<close>

definition failing_store_env :: "unit env" where
  "failing_store_env =
     example_env\<lparr>StoreLIBHashToStorage := (\<lambda>b. Some (ErrCollaborator ''storage''))\<rparr>"

definition unsigned_miner_env :: "unit env" where
  "unsigned_miner_env = example_env\<lparr>getParticipants := Inr [''miner-8'']\<rparr>"

definition failing_pool_env :: "unit env" where
  "failing_pool_env =
     example_env\<lparr>PushAndBroadcastTx := (\<lambda>tx. Some (ErrCollaborator ''pool''))\<rparr>"

text \<open>
  Scenario S4: the tail at height 100 with hash \<open>0xAA\<close> and three detached tails; and an
  environment in which the chain cannot set a new tail.
\<close>

definition fork_pod :: pod where
  "fork_pod =
     example_pod\<lparr>tail := block_at 100 1500 [0xAA] [0x10] [7] [7],
                  detachedTailBlocks :=
                    [block_at 100 1500 [0xAB] [0x10] [7] [7],
                     block_at 101 1515 [0x01] [0xAA] [7] [7],
                     block_at 99 1485 [0xFF] [0x11] [7] [7]]\<rparr>"

definition failing_tail_env :: "unit env" where
  "failing_tail_env =
     example_env\<lparr>SetTailBlockError := (\<lambda>b. Some (ErrCollaborator ''storage''))\<rparr>"




section \<open>Notions used in the statements\<close>

text \<open>
  A block's timestamp in milliseconds as an integer: the product that the code computes in
  64 bits, without the wrap-around.
\<close>

definition timestamp_ms :: "block \<Rightarrow> int" where
  "timestamp_ms b = sint (Timestamp b) * sint SecondInMs"

text \<open>
  Following the words of the specification, not the code, on integers:
  \<open>last_slot(now_ms) = floor((now_ms - SecondMs) / BlockIntervalMs) \<cdot> BlockIntervalMs\<close>,
  \<open>next_slot(now_ms) = floor((now_ms + BlockIntervalMs - SecondMs) / BlockIntervalMs) \<cdot> BlockIntervalMs\<close>
  and \<open>deadline(now_ms) = min(next_slot(now_ms), now_ms + MaxMintDurationMs)\<close>.
\<close>

definition spec_last_slot :: "int \<Rightarrow> int" where
  "spec_last_slot now_ms =
     (now_ms - sint SecondInMs) div sint BlockIntervalInMs * sint BlockIntervalInMs"

definition spec_next_slot :: "int \<Rightarrow> int" where
  "spec_next_slot now_ms =
     (now_ms + sint BlockIntervalInMs - sint SecondInMs) div sint BlockIntervalInMs *
       sint BlockIntervalInMs"

definition spec_deadline :: "int \<Rightarrow> int" where
  "spec_deadline now_ms = min (spec_next_slot now_ms) (now_ms + sint MaxMintDurationInMs)"

text \<open>
  Every entry of the slot cache is keyed by the timestamp of its block; and the condition
  under which \<open>heartbeat\<close> beats again once \<open>launchBeat\<close> is set.
\<close>

definition slot_consistent :: "(int64, block) lru \<Rightarrow> bool" where
  "slot_consistent c = list_all (\<lambda>e. Timestamp (snd e) = fst e) c"

definition midpoint :: "int64 \<Rightarrow> bool" where
  "midpoint now =
     (go_mod (now * SecondInMs + go_div DynastyIntervalInMs 2) DynastyIntervalInMs = 0)"

text \<open>
  \<open>on_walk s h b c\<close>: block \<open>c\<close> is reached from \<open>b\<close> by following parent hashes through the
  block index, leaving only blocks whose hash is not \<open>h\<close>. With \<open>h\<close> the LIB's hash and
  \<open>b\<close> the tail, these are the blocks \<open>UpdateLIB\<close> can visit.
\<close>

inductive on_walk :: "pod \<Rightarrow> bytes \<Rightarrow> block \<Rightarrow> block \<Rightarrow> bool" for s :: pod and h :: bytes where
  on_walk_start: "on_walk s h b b"
| on_walk_parent:
    "on_walk s h b c \<Longrightarrow> Hash c \<noteq> h \<Longrightarrow> blocks s (ParentHash c) = Some p \<Longrightarrow> on_walk s h b p"

text \<open>
  A list of blocks is the walk from the tail when it starts at the tail, each block is
  followed by its parent in the block index, none has the LIB's hash and none after the
  first is the genesis block. Its heights descend when each parent is lower than its
  child, and all lie above the LIB's height and below \<open>2^63\<close>, where the conversion of
  \<open>uint64\<close> to \<open>int\<close> keeps the value.
\<close>

fun parent_path :: "pod \<Rightarrow> block list \<Rightarrow> bool" where
  "parent_path s [] = True"
| "parent_path s [b] = True"
| "parent_path s (b # c # bs) = (blocks s (ParentHash b) = Some c \<and> parent_path s (c # bs))"

definition walk_from_tail :: "'trie env \<Rightarrow> pod \<Rightarrow> block list \<Rightarrow> bool" where
  "walk_from_tail env s p =
     (p \<noteq> [] \<and> hd p = tail s \<and> parent_path s p \<and>
      list_all (\<lambda>b. Hash b \<noteq> Hash (lib s)) p \<and>
      list_all (\<lambda>b. \<not> CheckGenesisBlock env b) (tl p))"

definition heights_descend :: "pod \<Rightarrow> block list \<Rightarrow> bool" where
  "heights_descend s p =
     (sorted_wrt (\<lambda>a b. Height b < Height a) p \<and>
      list_all (\<lambda>b. Height (lib s) < Height b \<and> Height b < 2 ^ 63) p)"

text \<open>
  Following the words of the specification, not the code: the first block of a walk at
  which the number of distinct proposers, counted within one run of equal dynasty serial,
  reaches \<open>ConsensusSize\<close>. \<open>miners\<close> are the proposers counted so far and \<open>dynasty\<close> the
  serial of the run.
\<close>

fun confirmed_block :: "bytes list \<Rightarrow> int64 \<Rightarrow> block list \<Rightarrow> block option" where
  "confirmed_block miners dynasty [] = None"
| "confirmed_block miners dynasty (b # bs) =
     (let miners1 = (if serial (Timestamp b) \<noteq> dynasty then [] else miners);
          miners2 = List.insert (Proposer (ConsensusRoot b)) miners1
      in if unat ConsensusSize \<le> length miners2 then Some b
         else confirmed_block miners2 (serial (Timestamp b)) bs)"

section \<open>Arithmetic of 64-bit words\<close>

lemma sdiv_pos_const: "(k::int) sdiv 15000 = (if 0 \<le> k then k div 15000 else - ((- k) div 15000))"
  by (simp add: signed_divide_int_def sgn_if)

lemma smod_pos_const: "(k::int) smod 15000 = (if 0 \<le> k then k mod 15000 else - ((- k) mod 15000))"
  by (simp add: signed_modulo_int_def sgn_if)

lemma sdiv_nonneg:
  assumes "0 \<le> (k::int)"
  shows "0 \<le> k sdiv 15000" and "k sdiv 15000 \<le> k"
    and "k sdiv 15000 * 15000 \<le> k" and "k < k sdiv 15000 * 15000 + 15000"
    and "0 \<le> k sdiv 15000 * 15000"
  using assms unfolding sdiv_pos_const by simp_all

lemma sdiv_neg:
  assumes "(k::int) < 0"
  shows "k sdiv 15000 \<le> 0" and "k \<le> k sdiv 15000"
    and "k \<le> k sdiv 15000 * 15000" and "k sdiv 15000 * 15000 - 15000 < k"
    and "k sdiv 15000 * 15000 \<le> 0"
  using assms unfolding sdiv_pos_const by simp_all

lemma sint64_lower: "- 9223372036854775808 \<le> sint (a::int64)"
  using sint_range_size [of a] by (simp add: word_size)

lemma sint64_upper: "sint (a::int64) < 9223372036854775808"
  using sint_range_size [of a] by (simp add: word_size)

lemma sint64_of_int:
  "- 9223372036854775808 \<le> k \<Longrightarrow> k < 9223372036854775808 \<Longrightarrow> sint (word_of_int k :: int64) = k"
  by (simp add: sint_sbintrunc' signed_take_bit_int_eq_self)

lemma sdiv_in_range:
  assumes "- 9223372036854775808 \<le> (k::int)" and "k < 9223372036854775808"
  shows "- 9223372036854775808 \<le> k sdiv 15000" and "k sdiv 15000 < 9223372036854775808"
    and "- 9223372036854775808 \<le> k sdiv 15000 * 15000" and "k sdiv 15000 * 15000 < 9223372036854775808"
proof -
  consider "0 \<le> k" | "k < 0" by linarith
  then have "- 9223372036854775808 \<le> k sdiv 15000 \<and> k sdiv 15000 < 9223372036854775808
     \<and> - 9223372036854775808 \<le> k sdiv 15000 * 15000 \<and> k sdiv 15000 * 15000 < 9223372036854775808"
  proof cases
    case 1
    from sdiv_nonneg [OF 1] assms show ?thesis by linarith
  next
    case 2
    from sdiv_neg [OF 2] assms show ?thesis by linarith
  qed
  then show "- 9223372036854775808 \<le> k sdiv 15000" and "k sdiv 15000 < 9223372036854775808"
    and "- 9223372036854775808 \<le> k sdiv 15000 * 15000" and "k sdiv 15000 * 15000 < 9223372036854775808"
    by blast+
qed

lemma sint_slot_floor:
  "sint (go_div a BlockIntervalInMs * BlockIntervalInMs) = (sint a sdiv 15000) * 15000"
proof -
  note r = sint64_lower [of a] sint64_upper [of a]
  have q: "sint (go_div a BlockIntervalInMs) = sint a sdiv 15000"
    unfolding go_div_def BlockIntervalInMs_def
    using sint64_of_int [OF sdiv_in_range(1,2) [OF r]] by simp
  have "sint (go_div a BlockIntervalInMs * BlockIntervalInMs) =
        signed_take_bit 63 (sint (go_div a BlockIntervalInMs) * 15000)"
    by (simp add: sint_word_mult BlockIntervalInMs_def)
  also have "\<dots> = signed_take_bit 63 ((sint a sdiv 15000) * 15000)"
    by (simp only: q)
  also have "\<dots> = (sint a sdiv 15000) * 15000"
    by (rule signed_take_bit_int_eq_self) (use sdiv_in_range(3,4) [OF r] in simp_all)
  finally show ?thesis .
qed

lemma sint_add64:
  "- 9223372036854775808 \<le> sint (a::int64) + sint b \<Longrightarrow> sint a + sint b < 9223372036854775808
   \<Longrightarrow> sint (a + b) = sint a + sint b"
  by (simp add: sint_word_ariths signed_take_bit_int_eq_self)

lemma sint_sub64:
  "- 9223372036854775808 \<le> sint (a::int64) - sint b \<Longrightarrow> sint a - sint b < 9223372036854775808
   \<Longrightarrow> sint (a - b) = sint a - sint b"
  by (simp add: sint_word_ariths signed_take_bit_int_eq_self)

lemma sint_lastSlot:
  assumes "- 9223372036854774808 \<le> sint n"
  shows "sint (lastSlot n) = ((sint n - 1000) sdiv 15000) * 15000"
proof -
  have "sint (n - SecondInMs) = sint n - sint SecondInMs"
    by (rule sint_sub64) (use assms sint64_upper [of n] in \<open>simp_all add: SecondInMs_def\<close>)
  then have "sint (n - SecondInMs) = sint n - 1000" by (simp add: SecondInMs_def)
  then show ?thesis by (simp only: lastSlot_def sint_slot_floor)
qed

lemma sint_nextSlot:
  assumes "sint n < 9223372036854761808"
  shows "sint (nextSlot n) = ((sint n + 14000) sdiv 15000) * 15000"
proof -
  have e: "n + BlockIntervalInMs - SecondInMs = n + 14000"
    by (simp add: BlockIntervalInMs_def SecondInMs_def)
  have "sint (n + 14000) = sint n + sint (14000 :: int64)"
    by (rule sint_add64) (use assms sint64_lower [of n] in simp_all)
  then have "sint (n + 14000) = sint n + 14000" by simp
  then show ?thesis by (simp only: nextSlot_def e sint_slot_floor)
qed

section \<open>Slots and deadlines\<close>

lemma aligned_next: 
  assumes "(k::int) mod 1000 = 0" 
  shows "k \<le> (k + 14000) div 15000 * 15000"
proof -
  from assms have "1000 dvd k" by (rule mod_0_imp_dvd)
  then obtain m where m: "k = 1000 * m" by (rule dvdE)
  have "(1000 * m + 14000) div 15000 = (1000 * (m + 14)) div (1000 * 15)" by (simp add: algebra_simps)
  also have "\<dots> = (m + 14) div 15" by (simp only: div_mult_mult1_if) simp
  finally have "(k + 14000) div 15000 * 15000 = ((m + 14) div 15 * 15) * 1000" by (simp add: m)
  moreover have "m \<le> (m + 14) div 15 * 15" by arith
  ultimately show ?thesis using m by linarith
qed

lemma aligned_pos: 
  assumes "0 < (k::int)" and "k mod 1000 = 0" shows "1000 \<le> k"
proof -
  from assms(2) have "1000 dvd k" by (rule mod_0_imp_dvd)
  then obtain m where m: "k = 1000 * m" by (rule dvdE)
  with assms(1) have "1 \<le> m" by linarith
  with m show ?thesis by linarith
qed

lemma slot_multiple: "go_mod (go_div a BlockIntervalInMs * BlockIntervalInMs) BlockIntervalInMs = 0"
proof -
  have "sint (go_div a BlockIntervalInMs * BlockIntervalInMs) smod 15000 = 0"
    unfolding sint_slot_floor by (simp add: smod_pos_const)
  then show ?thesis by (simp add: go_mod_def BlockIntervalInMs_def)
qed

text \<open>
  Claim C7, as amended. For every \<open>now_ms\<close> that is a positive multiple of \<open>SecondMs\<close> and
  at most \<open>2^63 - 1 - (BlockIntervalMs - SecondMs)\<close> (so that \<open>nextSlot\<close> does not wrap
  around), \<open>last_slot(now_ms) < now_ms \<le> next_slot(now_ms)\<close>, and both slots are multiples
  of \<open>BlockIntervalMs\<close>. The engine calls both functions on \<open>now * SecondInMs\<close> only.
\<close>

theorem slots_bracket_aligned_now:
  assumes "0 <s n" and "go_mod n SecondInMs = 0" and "n \<le>s 9223372036854761807"
  shows "lastSlot n <s n \<and> n \<le>s nextSlot n \<and>
         go_mod (lastSlot n) BlockIntervalInMs = 0 \<and> go_mod (nextSlot n) BlockIntervalInMs = 0"
proof -
  have pos: "0 < sint n" using assms(1) by (simp add: word_sless_alt)
  have up: "sint n < 9223372036854761808" using assms(3) by (simp add: word_sle_eq)
  have sm: "sint n smod 1000 = sint n mod 1000"
    using pos by (simp add: signed_modulo_int_def sgn_if)
  have w0: "(word_of_int (sint n mod 1000) :: int64) = 0"
    using assms(2) by (simp add: go_mod_def SecondInMs_def sm)
  have "sint (word_of_int (sint n mod 1000) :: int64) = sint n mod 1000"
    by (rule sint64_of_int) simp_all
  then have al: "sint n mod 1000 = 0"
    by (simp add: w0)
  have l: "sint (lastSlot n) = ((sint n - 1000) sdiv 15000) * 15000"
    using pos by (simp add: sint_lastSlot)
  have x: "sint (nextSlot n) = ((sint n + 14000) sdiv 15000) * 15000"
    using up by (simp add: sint_nextSlot)
  have k: "1000 \<le> sint n" using pos al by (rule aligned_pos)
  have "((sint n - 1000) sdiv 15000) * 15000 \<le> sint n - 1000"
    using k sdiv_nonneg(3) [of "sint n - 1000"] by simp
  then have a: "lastSlot n <s n" by (simp add: word_sless_alt l)
  have "sint n \<le> ((sint n + 14000) sdiv 15000) * 15000"
    using aligned_next [OF al] pos by (simp add: sdiv_pos_const)
  then have b: "n \<le>s nextSlot n" by (simp add: word_sle_eq x)
  show ?thesis using a b by (simp add: lastSlot_def nextSlot_def slot_multiple)
qed


lemmas timing_defs = lastSlot_def nextSlot_def deadline_def checkDeadline_def go_div_def go_mod_def
  SecondInMs_def BlockIntervalInMs_def MaxMintDurationInMs_def MinMintDurationInMs_def
  signed_divide_int_def signed_modulo_int_def

text \<open>The theorem of C7 at \<open>now_ms = 16000\<close>: the slots are 15000 and 30000.\<close>

theorem slots_bracket_aligned_now_witness:
  "(0::int64) <s 16000 \<and> go_mod 16000 SecondInMs = 0 \<and> (16000::int64) \<le>s 9223372036854761807 \<and>
   lastSlot 16000 = 15000 \<and> nextSlot 16000 = 30000 \<and>
   lastSlot 16000 <s 16000 \<and> 16000 \<le>s nextSlot 16000 \<and>
   go_mod (lastSlot 16000) BlockIntervalInMs = 0 \<and> go_mod (nextSlot 16000) BlockIntervalInMs = 0"
proof -
  have h1: "(0::int64) <s 16000" by (simp add: word_sless_alt)
  have h2: "go_mod 16000 SecondInMs = 0" by (simp add: timing_defs)
  have h3: "(16000::int64) \<le>s 9223372036854761807" by (simp add: word_sle_eq)
  have v: "lastSlot 16000 = 15000" "nextSlot 16000 = 30000" by (simp_all add: timing_defs)
  show ?thesis using slots_bracket_aligned_now [OF h1 h2 h3] h1 h2 h3 v by simp
qed

text \<open>
  Claim C7 as stated, for every millisecond time, fails at \<open>now_ms = 15001\<close>: the next slot
  is 15000, which lies before \<open>now_ms\<close>.
\<close>

theorem slots_bracket_counterexample:
  "nextSlot 15001 = 15000 \<and>
   \<not> (lastSlot 15001 <s 15001 \<and> 15001 \<le>s nextSlot 15001 \<and>
      go_mod (lastSlot 15001) BlockIntervalInMs = 0 \<and> go_mod (nextSlot 15001) BlockIntervalInMs = 0)"
  by (simp add: timing_defs)

text \<open>
  Claim C8, as amended. For every \<open>now_ms\<close> of at most
  \<open>2^63 - 1 - (BlockIntervalMs - SecondMs)\<close>, \<open>deadline(now_ms)\<close> is the minimum of
  \<open>next_slot(now_ms)\<close> and \<open>now_ms + MaxMintDurationMs\<close>; so it is at most
  \<open>next_slot(now_ms)\<close>, and \<open>deadline(now_ms) - now_ms\<close> is at most \<open>MaxMintDurationMs\<close>.
\<close>

theorem deadline_is_min:
  assumes "n \<le>s 9223372036854761807"
  shows "deadline n = (if nextSlot n \<le>s n + MaxMintDurationInMs then nextSlot n
                       else n + MaxMintDurationInMs) \<and>
         deadline n \<le>s nextSlot n \<and> deadline n - n \<le>s MaxMintDurationInMs"
proof -
  have up: "sint n < 9223372036854761808" using assms by (simp add: word_sle_eq)
  note lo = sint64_lower [of n]
  define X where "X = ((sint n + 14000) sdiv 15000) * 15000"
  have x: "sint (nextSlot n) = X" using up by (simp add: sint_nextSlot X_def)
  have xb: "sint n - 999 \<le> X \<and> X \<le> sint n + 28999"
  proof (cases "0 \<le> sint n + 14000")
    case True
    from sdiv_nonneg(3,4) [OF True] show ?thesis unfolding X_def by linarith
  next
    case False
    then have "sint n + 14000 < 0" by simp
    from sdiv_neg(3,4) [OF this] show ?thesis unfolding X_def by linarith
  qed
  have r: "sint (nextSlot n - n) = X - sint n"
    using sint_sub64 [of "nextSlot n" n] xb lo up by (simp add: x)
  have m: "sint (n + MaxMintDurationInMs) = sint n + 5200"
    using sint_add64 [of n "5200"] lo up by (simp add: MaxMintDurationInMs_def)
  have d: "sint (n + MaxMintDurationInMs - n) = 5200"
    by (simp add: MaxMintDurationInMs_def)
  have c: "(nextSlot n - n <s MaxMintDurationInMs) = (X - sint n < 5200)"
    by (simp add: word_sless_alt r MaxMintDurationInMs_def)
  have e: "(nextSlot n \<le>s n + MaxMintDurationInMs) = (X \<le> sint n + 5200)"
    by (simp add: word_sle_eq x m)
  show ?thesis
  proof (cases "X - sint n < 5200")
    case True
    then have dl: "deadline n = nextSlot n" by (simp add: deadline_def Let_def c)
    have le: "nextSlot n \<le>s n + MaxMintDurationInMs" using True by (simp add: e)
    have "sint (nextSlot n - n) \<le> 5200" using True by (simp add: r)
    then have "nextSlot n - n \<le>s MaxMintDurationInMs"
      by (simp add: word_sle_eq MaxMintDurationInMs_def)
    then show ?thesis using le by (simp add: dl)
  next
    case False
    then have dl: "deadline n = n + MaxMintDurationInMs" by (simp add: deadline_def Let_def c)
    have q: "nextSlot n \<le>s n + MaxMintDurationInMs \<Longrightarrow> nextSlot n = n + MaxMintDurationInMs"
    proof (rule signed_word_eqI)
      assume "nextSlot n \<le>s n + MaxMintDurationInMs"
      then have "X \<le> sint n + 5200" by (simp add: e)
      with False show "sint (nextSlot n) = sint (n + MaxMintDurationInMs)"
        by (simp add: x m)
    qed
    have "sint n + 5200 \<le> X" using False by simp
    then have le: "n + MaxMintDurationInMs \<le>s nextSlot n" by (simp add: word_sle_eq x m)
    have "n + MaxMintDurationInMs - n \<le>s MaxMintDurationInMs"
      by (simp add: word_sle_eq)
    then show ?thesis using q le by (auto simp add: dl)
  qed
qed

text \<open>The theorem of C8 at \<open>now_ms = 16000\<close>: the deadline is 21200.\<close>

theorem deadline_is_min_witness:
  "(16000::int64) \<le>s 9223372036854761807 \<and> deadline 16000 = 21200 \<and>
   deadline 16000 = (if nextSlot 16000 \<le>s 16000 + MaxMintDurationInMs then nextSlot 16000
                       else 16000 + MaxMintDurationInMs) \<and>
   deadline 16000 \<le>s nextSlot 16000 \<and> deadline 16000 - 16000 \<le>s MaxMintDurationInMs"
proof -
  have h: "(16000::int64) \<le>s 9223372036854761807" by (simp add: word_sle_eq)
  have v: "deadline 16000 = 21200" by (simp add: timing_defs)
  show ?thesis using deadline_is_min [OF h] h v by simp
qed

text \<open>
  Claim C8 as stated, for every millisecond time, fails where the 64-bit sum
  \<open>now_ms + BlockIntervalMs - SecondMs\<close> wraps around: at \<open>now_ms = 2^63 - 10000\<close> the next
  slot is negative and the deadline, \<open>now_ms + MaxMintDurationMs\<close>, lies after it.
\<close>

theorem deadline_overflow_counterexample:
  "nextSlot 9223372036854765808 = - 9223372036854765000 \<and>
   deadline 9223372036854765808 = 9223372036854771008 \<and>
   \<not> (deadline 9223372036854765808 \<le>s nextSlot 9223372036854765808)"
  by (simp add: timing_defs)

lemma sint_timestamp_ms:
  assumes "- 9223372036854775808 \<le> timestamp_ms b" and "timestamp_ms b < 9223372036854775808"
  shows "sint (Timestamp b * SecondInMs) = timestamp_ms b"
proof -
  have "sint (Timestamp b * SecondInMs) = signed_take_bit 63 (sint (Timestamp b) * sint SecondInMs)"
    by (simp add: sint_word_mult)
  also have "\<dots> = sint (Timestamp b) * sint SecondInMs"
    by (rule signed_take_bit_int_eq_self) (use assms in \<open>simp_all add: timestamp_ms_def\<close>)
  finally show ?thesis by (simp add: timestamp_ms_def)
qed

lemma sint_slot_difference:
  assumes "sint n < 9223372036854761808"
  shows "sint (nextSlot n - n) = sint (nextSlot n) - sint n"
proof -
  note lo = sint64_lower [of n]
  define X where "X = ((sint n + 14000) sdiv 15000) * 15000"
  have x: "sint (nextSlot n) = X" using assms by (simp add: sint_nextSlot X_def)
  have xb: "sint n - 999 \<le> X \<and> X \<le> sint n + 28999"
  proof (cases "0 \<le> sint n + 14000")
    case True
    from sdiv_nonneg(3,4) [OF True] show ?thesis unfolding X_def by linarith
  next
    case False
    then have "sint n + 14000 < 0" by simp
    from sdiv_neg(3,4) [OF this] show ?thesis unfolding X_def by linarith
  qed
  show ?thesis
    using sint_sub64 [of "nextSlot n" n] xb lo assms by (simp add: x)
qed

lemma spec_slots:
  assumes "1000 \<le> sint n" and "sint n < 9223372036854761808"
  shows "sint (lastSlot n) = spec_last_slot (sint n)"
    and "sint (nextSlot n) = spec_next_slot (sint n)"
    and "sint (deadline n) = spec_deadline (sint n)"
proof -
  have l: "sint (lastSlot n) = ((sint n - 1000) sdiv 15000) * 15000"
    using assms(1) by (simp add: sint_lastSlot)
  have "0 \<le> sint n - 1000" using assms(1) by simp
  then have "(sint n - 1000) sdiv 15000 = (sint n - 1000) div 15000"
    by (simp add: sdiv_pos_const)
  then show a: "sint (lastSlot n) = spec_last_slot (sint n)"
    by (simp add: l spec_last_slot_def SecondInMs_def BlockIntervalInMs_def)
  have x: "sint (nextSlot n) = ((sint n + 14000) sdiv 15000) * 15000"
    using assms(2) by (simp add: sint_nextSlot)
  have "0 \<le> sint n + 14000" using assms(1) by simp
  then have "(sint n + 14000) sdiv 15000 = (sint n + 14000) div 15000"
    by (simp add: sdiv_pos_const)
  then show b: "sint (nextSlot n) = spec_next_slot (sint n)"
    by (simp add: x spec_next_slot_def SecondInMs_def BlockIntervalInMs_def)
  have m: "sint (n + MaxMintDurationInMs) = sint n + 5200"
    using sint_add64 [of n "5200"] sint64_lower [of n] assms(2)
    by (simp add: MaxMintDurationInMs_def)
  have c: "(nextSlot n - n <s MaxMintDurationInMs) = (sint (nextSlot n) - sint n < 5200)"
    by (simp add: word_sless_alt sint_slot_difference [OF assms(2)] MaxMintDurationInMs_def)
  show "sint (deadline n) = spec_deadline (sint n)"
  proof (cases "sint (nextSlot n) - sint n < 5200")
    case True
    then have "deadline n = nextSlot n" by (simp add: deadline_def Let_def c)
    then show ?thesis using True b
      by (simp add: spec_deadline_def MaxMintDurationInMs_def min_def)
  next
    case False
    then have "deadline n = n + MaxMintDurationInMs" by (simp add: deadline_def Let_def c)
    then show ?thesis using False b m
      by (simp add: spec_deadline_def MaxMintDurationInMs_def min_def)
  qed
qed

text \<open>
  Claim C3, as amended. For every tail whose timestamp in milliseconds fits in 64 bits and
  every \<open>now_ms\<close> of at most \<open>2^63 - 1 - (BlockIntervalMs - SecondMs)\<close>, compared as
  integers: \<open>checkDeadline\<close> fails with \<open>BlockMintedInNextSlot\<close> when the tail's timestamp
  in milliseconds is at least \<open>next_slot(now_ms)\<close>; otherwise it returns \<open>deadline(now_ms)\<close>
  when that timestamp equals \<open>last_slot(now_ms)\<close>; otherwise it returns \<open>deadline(now_ms)\<close>
  when \<open>next_slot(now_ms) - now_ms \<le> MinMintDurationMs\<close>; otherwise it fails with
  \<open>WaitingBlockInLastSlot\<close>. Here \<open>last_slot\<close>, \<open>next_slot\<close> and \<open>deadline\<close> are the
  functions of the code; from \<open>now_ms = SecondMs\<close> on, their values are the integers that
  the formulas of the specification give.
\<close>

theorem checkDeadline_cases:
  assumes "nowInMs \<le>s 9223372036854761807"
    and "- 9223372036854775808 \<le> timestamp_ms tailBlock"
    and "timestamp_ms tailBlock < 9223372036854775808"
  shows
  "(sint (nextSlot nowInMs) \<le> timestamp_ms tailBlock \<longrightarrow>
      checkDeadline tailBlock nowInMs = Inl ErrBlockMintedInNextSlot) \<and>
   (timestamp_ms tailBlock < sint (nextSlot nowInMs) \<and>
    timestamp_ms tailBlock = sint (lastSlot nowInMs) \<longrightarrow>
      checkDeadline tailBlock nowInMs = Inr (deadline nowInMs)) \<and>
   (timestamp_ms tailBlock < sint (nextSlot nowInMs) \<and>
    timestamp_ms tailBlock \<noteq> sint (lastSlot nowInMs) \<and>
    sint (nextSlot nowInMs) - sint nowInMs \<le> sint MinMintDurationInMs \<longrightarrow>
      checkDeadline tailBlock nowInMs = Inr (deadline nowInMs)) \<and>
   (timestamp_ms tailBlock < sint (nextSlot nowInMs) \<and>
    timestamp_ms tailBlock \<noteq> sint (lastSlot nowInMs) \<and>
    sint MinMintDurationInMs < sint (nextSlot nowInMs) - sint nowInMs \<longrightarrow>
      checkDeadline tailBlock nowInMs = Inl ErrWaitingBlockInLastSlot) \<and>
   (SecondInMs \<le>s nowInMs \<longrightarrow>
      sint (lastSlot nowInMs) = spec_last_slot (sint nowInMs) \<and>
      sint (nextSlot nowInMs) = spec_next_slot (sint nowInMs) \<and>
      sint (deadline nowInMs) = spec_deadline (sint nowInMs))"
proof -
  have up: "sint nowInMs < 9223372036854761808" using assms(1) by (simp add: word_sle_eq)
  note t = sint_timestamp_ms [OF assms(2,3)]
  have c1: "(nextSlot nowInMs \<le>s Timestamp tailBlock * SecondInMs) =
      (sint (nextSlot nowInMs) \<le> timestamp_ms tailBlock)"
    by (simp add: word_sle_eq t)
  have c2: "(Timestamp tailBlock * SecondInMs = lastSlot nowInMs) =
      (timestamp_ms tailBlock = sint (lastSlot nowInMs))"
    using t by (auto intro: signed_word_eqI)
  have c3: "(nextSlot nowInMs - nowInMs \<le>s MinMintDurationInMs) =
      (sint (nextSlot nowInMs) - sint nowInMs \<le> sint MinMintDurationInMs)"
    by (simp add: word_sle_eq sint_slot_difference [OF up])
  have d: "checkDeadline tailBlock nowInMs =
     (if sint (nextSlot nowInMs) \<le> timestamp_ms tailBlock then Inl ErrBlockMintedInNextSlot
      else if timestamp_ms tailBlock = sint (lastSlot nowInMs) then Inr (deadline nowInMs)
      else if sint (nextSlot nowInMs) - sint nowInMs \<le> sint MinMintDurationInMs
           then Inr (deadline nowInMs)
      else Inl ErrWaitingBlockInLastSlot)"
    by (simp only: checkDeadline_def Let_def c1 c2 c3)
  have s: "SecondInMs \<le>s nowInMs \<Longrightarrow>
      sint (lastSlot nowInMs) = spec_last_slot (sint nowInMs) \<and>
      sint (nextSlot nowInMs) = spec_next_slot (sint nowInMs) \<and>
      sint (deadline nowInMs) = spec_deadline (sint nowInMs)"
  proof -
    assume "SecondInMs \<le>s nowInMs"
    then have "1000 \<le> sint nowInMs" by (simp add: word_sle_eq SecondInMs_def)
    from spec_slots [OF this up] show ?thesis by simp
  qed
  show ?thesis using s by (simp add: d)
qed


text \<open>
  The theorem of C3 on the scenarios S1, S2 and S3 of the specification, one for each of
  the four cases.
\<close>

theorem checkDeadline_cases_witness:
  "(16000::int64) \<le>s 9223372036854761807 \<and> SecondInMs \<le>s 16000 \<and>
   timestamp_ms (block_at 1 15 [1] [0] [7] [7]) = 15000 \<and>
   spec_last_slot 16000 = 15000 \<and> spec_next_slot 16000 = 30000 \<and> spec_deadline 16000 = 21200 \<and>
   checkDeadline (block_at 1 15 [1] [0] [7] [7]) 16000 = Inr 21200 \<and>
   checkDeadline (block_at 1 0 [1] [0] [7] [7]) 28000 = Inr 30000 \<and>
   checkDeadline (block_at 1 0 [1] [0] [7] [7]) 20000 = Inl ErrWaitingBlockInLastSlot \<and>
   checkDeadline (block_at 1 45 [1] [0] [7] [7]) 30000 = Inl ErrBlockMintedInNextSlot"
proof -
  have v: "nextSlot 16000 = 30000" "lastSlot 16000 = 15000" "deadline 16000 = 21200"
    "nextSlot 28000 = 30000" "lastSlot 28000 = 15000" "deadline 28000 = 30000"
    "nextSlot 20000 = 30000" "lastSlot 20000 = 15000"
    "nextSlot 30000 = 30000"
    by (simp_all add: timing_defs)
  have b: "(16000::int64) \<le>s 9223372036854761807" "(28000::int64) \<le>s 9223372036854761807"
    "(20000::int64) \<le>s 9223372036854761807" "(30000::int64) \<le>s 9223372036854761807"
    "SecondInMs \<le>s 16000"
    by (simp_all add: word_sle_eq SecondInMs_def)
  have m: "timestamp_ms (block_at 1 15 [1] [0] [7] [7]) = 15000"
    "timestamp_ms (block_at 1 0 [1] [0] [7] [7]) = 0"
    "timestamp_ms (block_at 1 45 [1] [0] [7] [7]) = 45000"
    by (simp_all add: timestamp_ms_def block_at_def SecondInMs_def)
  have r: "- 9223372036854775808 \<le> timestamp_ms (block_at 1 15 [1] [0] [7] [7])"
    "timestamp_ms (block_at 1 15 [1] [0] [7] [7]) < 9223372036854775808"
    by (simp_all add: m)
  have sp: "spec_last_slot 16000 = 15000 \<and> spec_next_slot 16000 = 30000 \<and>
    spec_deadline 16000 = 21200"
    using checkDeadline_cases [OF b(1) r, THEN conjunct2, THEN conjunct2, THEN conjunct2,
        THEN conjunct2, THEN mp, OF b(5)]
    by (simp add: v)
  have 1: "checkDeadline (block_at 1 15 [1] [0] [7] [7]) 16000 = Inr 21200"
    using checkDeadline_cases [OF b(1), of "block_at 1 15 [1] [0] [7] [7]"]
    by (simp add: v m)
  have 2: "checkDeadline (block_at 1 0 [1] [0] [7] [7]) 28000 = Inr 30000"
    using checkDeadline_cases [OF b(2), of "block_at 1 0 [1] [0] [7] [7]"]
    by (simp add: v m MinMintDurationInMs_def)
  have 3: "checkDeadline (block_at 1 0 [1] [0] [7] [7]) 20000 = Inl ErrWaitingBlockInLastSlot"
    using checkDeadline_cases [OF b(3), of "block_at 1 0 [1] [0] [7] [7]"]
    by (simp add: v m MinMintDurationInMs_def)
  have 4: "checkDeadline (block_at 1 45 [1] [0] [7] [7]) 30000 = Inl ErrBlockMintedInNextSlot"
    using checkDeadline_cases [OF b(4), of "block_at 1 45 [1] [0] [7] [7]"]
    by (simp add: v m)
  show ?thesis using 1 2 3 4 b(1,5) m(1) sp by simp
qed

text \<open>
  Claim C3 as stated, for every tail and time, fails where the 64-bit product
  \<open>tail.timestamp \<cdot> SecondMs\<close> wraps around: a tail with timestamp 9223372036854776 lies
  after \<open>next_slot(16000) = 30000\<close>, the product is negative, and \<open>checkDeadline\<close> answers
  \<open>WaitingBlockInLastSlot\<close>.
\<close>

theorem checkDeadline_overflow_counterexample:
  "timestamp_ms (block_at 1 9223372036854776 [1] [0] [7] [7]) = 9223372036854776000 \<and>
   spec_next_slot 16000 = 30000 \<and> sint (nextSlot 16000) = 30000 \<and>
   spec_next_slot 16000 \<le> timestamp_ms (block_at 1 9223372036854776 [1] [0] [7] [7]) \<and>
   checkDeadline (block_at 1 9223372036854776 [1] [0] [7] [7]) 16000 =
     Inl ErrWaitingBlockInLastSlot \<and>
   checkDeadline (block_at 1 9223372036854776 [1] [0] [7] [7]) 16000 \<noteq>
     Inl ErrBlockMintedInNextSlot"
proof -
  have m: "timestamp_ms (block_at 1 9223372036854776 [1] [0] [7] [7]) = 9223372036854776000"
    by (simp add: timestamp_ms_def block_at_def SecondInMs_def)
  have sp: "spec_next_slot 16000 = 30000"
    by (simp add: spec_next_slot_def SecondInMs_def BlockIntervalInMs_def)
  have v: "nextSlot 16000 = 30000" "lastSlot 16000 = 15000" by (simp_all add: timing_defs)
  have c: "checkDeadline (block_at 1 9223372036854776 [1] [0] [7] [7]) 16000 =
     Inl ErrWaitingBlockInLastSlot"
    by (simp add: checkDeadline_def Let_def v block_at_def SecondInMs_def MinMintDurationInMs_def
          word_sle_eq)
  show ?thesis using m sp c by (simp add: v)
qed


section \<open>Evil detector, verification, LIB persistence, heartbeat\<close>

lemma lru_Get_fst: "fst (lru_Get k c) = lru_Peek k c"
  by (simp add: lru_Get_def lru_Peek_def split: option.splits)

text \<open>
  Claim C4. \<open>CheckDoubleMint\<close> returns true exactly when the slot cache holds, at the key
  \<open>b.timestamp\<close>, a block whose hash differs from \<open>b.hash\<close>, and then \<open>reportEvil\<close> has run
  on the stored and the new block; it returns false when there is no entry at that key and
  when the stored block has the hash of \<open>b\<close>.
\<close>

theorem CheckDoubleMint_spec:
  "(fst (CheckDoubleMint env s blk) \<longleftrightarrow>
      (\<exists>pre. lru_Peek (Timestamp blk) (slot s) = Some pre \<and> Hash pre \<noteq> Hash blk)) \<and>
   (\<forall>pre. lru_Peek (Timestamp blk) (slot s) = Some pre \<and> Hash pre \<noteq> Hash blk \<longrightarrow>
      CheckDoubleMint env s blk =
        (True, reportEvil env (s\<lparr>slot := snd (lru_Get (Timestamp blk) (slot s))\<rparr>) pre blk)) \<and>
   (lru_Peek (Timestamp blk) (slot s) = None \<longrightarrow> CheckDoubleMint env s blk = (False, s)) \<and>
   (\<forall>pre. lru_Peek (Timestamp blk) (slot s) = Some pre \<and> Hash pre = Hash blk \<longrightarrow>
      CheckDoubleMint env s blk =
        (False, s\<lparr>slot := snd (lru_Get (Timestamp blk) (slot s))\<rparr>))"
  by (auto simp add: CheckDoubleMint_def lru_Get_def lru_Peek_def split: option.splits)

text \<open>
  Claim C9. When persisting the new LIB fails, \<open>setLib\<close> leaves the state as it is: the LIB
  pointer, the reversible cache and the emitted events are unchanged. When it succeeds, the
  hash is persisted first, then the pointer moves, then the hash leaves the reversible
  cache, then the \<open>TopicLibBlock\<close> event is emitted.
\<close>

theorem setLib_spec:
  "(StoreLIBHashToStorage env blk \<noteq> None \<longrightarrow> setLib env s blk n = s) \<and>
   (StoreLIBHashToStorage env blk = None \<longrightarrow>
      lib (setLib env s blk n) = blk \<and>
      reversible (setLib env s blk n) = lru_Remove (Hash blk) (reversible s) \<and>
      operations (setLib env s blk n) =
        operations s @ [OpStoreLIBHash (Hash blk), OpSetLIB (Hash blk),
                        OpReversibleRemove (Hash blk),
                        OpTrigger TopicLibBlock (BlockString env blk)])"
  by (auto simp add: setLib_def Let_def split: option.splits)

lemma signTransaction_fields:
  assumes "signTransaction env s tx = Inr tx'"
  shows "tx_payload tx' = tx_payload tx \<and> tx_timestamp tx' = tx_timestamp tx \<and>
         tx_from tx' = tx_from tx \<and> tx_to tx' = tx_to tx \<and>
         tx_payloadType tx' = tx_payloadType tx \<and> tx_nonce tx' = tx_nonce tx \<and>
         tx_hash tx' = tx_hash tx"
proof (cases "enableRemoteSignServer s")
  case True
  with assms show ?thesis
    by (cases "remoteSign env s SECP256K1 (tx_hash tx)") (auto simp add: signTransaction_def)
next
  case False
  with assms show ?thesis
    by (cases "SignTransaction env (miner s) tx") (auto simp add: signTransaction_def)
qed

lemma sendTransaction_cases:
  "(fst (sendTransaction env s ts act dat) \<noteq> None \<and> snd (sendTransaction env s ts act dat) = s) \<or>
   (fst (sendTransaction env s ts act dat) = None \<and>
    (\<exists>tx payload. NewPodPayload env (serial ts) act dat = Inr payload \<and>
        PodPayloadToBytes env payload = Inr (tx_payload tx) \<and>
        tx_timestamp tx = ts \<and> tx_from tx = miner s \<and> tx_to tx = PoDContract env \<and>
        tx_payloadType tx = TxPayloadPodType \<and>
        snd (sendTransaction env s ts act dat) =
          s\<lparr>operations := operations s @ [OpPushTransaction tx]\<rparr>))"
proof (cases "NewPodPayload env (serial ts) act dat")
  case Inl
  then show ?thesis by (simp add: sendTransaction_def)
next
  case (Inr payload)
  note a = this
  show ?thesis
  proof (cases "PodPayloadToBytes env payload")
    case Inl
    then show ?thesis by (simp add: sendTransaction_def a)
  next
    case (Inr bs)
    note b = this
    show ?thesis
    proof (cases "GetAccountNonce env (tail s) (miner s)")
      case Inl
      then show ?thesis by (simp add: sendTransaction_def a b)
    next
      case (Inr accNonce)
      note c = this
      define tx0 where "tx0 = \<lparr>tx_chainID = ChainID env, tx_from = miner s, tx_to = PoDContract env,
                 tx_value = 0, tx_nonce = accNonce + 1, tx_payloadType = TxPayloadPodType,
                 tx_payload = bs, tx_gasPrice = TransactionMaxGasPrice env,
                 tx_gasLimit = TransactionMaxGas env, tx_timestamp = 0, tx_hash = [],
                 tx_sign = None\<rparr>"
      show ?thesis
      proof (cases "NewTransactionError env tx0")
        case Some
        then show ?thesis by (simp add: sendTransaction_def a b c Let_def tx0_def)
      next
        case None
        note d = this
        define tx1 where "tx1 = tx0\<lparr>tx_timestamp := ts\<rparr>"
        show ?thesis
        proof (cases "HashTransaction env tx1")
          case Inl
          then show ?thesis using d by (simp add: sendTransaction_def a b c Let_def tx0_def tx1_def)
        next
          case (Inr h)
          note e = this
          define tx2 where "tx2 = tx1\<lparr>tx_hash := h\<rparr>"
          show ?thesis
          proof (cases "signTransaction env s tx2")
            case Inl
            then show ?thesis using d e
              by (simp add: sendTransaction_def a b c Let_def tx0_def tx1_def tx2_def)
          next
            case (Inr tx3)
            note f = this
            from signTransaction_fields [OF f]
            have g: "tx_payload tx3 = bs \<and> tx_timestamp tx3 = ts \<and> tx_from tx3 = miner s \<and>
                     tx_to tx3 = PoDContract env \<and> tx_payloadType tx3 = TxPayloadPodType"
              by (simp add: tx2_def tx1_def tx0_def)
            show ?thesis
            proof (cases "PushAndBroadcastTx env tx3")
              case Some
              then show ?thesis using d e f
                by (simp add: sendTransaction_def a b c Let_def tx0_def tx1_def tx2_def)
            next
              case None
              then have r: "sendTransaction env s ts act dat =
                  (None, s\<lparr>operations := operations s @ [OpPushTransaction tx3]\<rparr>)"
                using d e f
                by (simp add: sendTransaction_def a b c Let_def tx0_def tx1_def tx2_def)
              show ?thesis using g a b unfolding r by auto
            qed
          qed
        qed
      qed
    qed
  qed
qed

lemma sendTransaction_fields:
  "launchBeat (snd (sendTransaction env s ts act dat)) = launchBeat s"
  "enable (snd (sendTransaction env s ts act dat)) = enable s"
  "tail (snd (sendTransaction env s ts act dat)) = tail s"
  using sendTransaction_cases [of env s ts act dat] by auto


text \<open>
  Claim C5, as amended. When mining is enabled, the node is at or beyond the activation
  height and the local miner is the proposer for the timestamp of the conflicting block,
  \<open>reportEvil\<close> is one call of \<open>sendTransaction\<close> with that timestamp, the action
  \<open>PoDReport\<close> and the bytes of the report that carries the block's timestamp and miner and
  the kind \<open>AttackDoubleSpend\<close> if the two blocks have the same miner, \<open>AttackNotMiner\<close>
  otherwise. When that call returns no error, exactly one transaction is pushed to the
  pool: from the local miner to the PoD contract, of the PoD payload type, with the block's
  timestamp and the payload made of the dynasty serial, \<open>PoDReport\<close> and these bytes. When
  it returns an error, no transaction is pushed and the state is unchanged. In all other
  cases nothing is sent and the state is unchanged.
\<close>

theorem reportEvil_spec:
  "(enable s \<and> NodeUpdateAtHeight env (Height (tail s)) \<and>
    fst (isProposer env (Timestamp blk) (miner s)) \<longrightarrow>
      (let rep = \<lparr>rp_Timestamp = Timestamp blk,
                   rp_Miner = AddressString env (Miner blk),
                   rp_Evil = (if Miner preBlock = Miner blk then AttackDoubleSpend
                              else AttackNotMiner)\<rparr>;
           bs = fst (ReportToBytes env rep);
           r = sendTransaction env s (Timestamp blk) PoDReport bs
       in reportEvil env s preBlock blk = snd r \<and>
          (fst r = None \<longrightarrow>
             (\<exists>tx payload.
                 NewPodPayload env (serial (Timestamp blk)) PoDReport bs = Inr payload \<and>
                 PodPayloadToBytes env payload = Inr (tx_payload tx) \<and>
                 tx_timestamp tx = Timestamp blk \<and> tx_from tx = miner s \<and>
                 tx_to tx = PoDContract env \<and> tx_payloadType tx = TxPayloadPodType \<and>
                 snd r = s\<lparr>operations := operations s @ [OpPushTransaction tx]\<rparr>)) \<and>
          (fst r \<noteq> None \<longrightarrow> snd r = s))) \<and>
   (\<not> (enable s \<and> NodeUpdateAtHeight env (Height (tail s)) \<and>
       fst (isProposer env (Timestamp blk) (miner s))) \<longrightarrow>
      reportEvil env s preBlock blk = s)"
proof -
  define rep where "rep = \<lparr>rp_Timestamp = Timestamp blk,
                   rp_Miner = AddressString env (Miner blk),
                   rp_Evil = (if Miner preBlock = Miner blk then AttackDoubleSpend
                              else AttackNotMiner)\<rparr>"
  define bs where "bs = fst (ReportToBytes env rep)"
  have a: "enable s \<and> NodeUpdateAtHeight env (Height (tail s)) \<and>
    fst (isProposer env (Timestamp blk) (miner s)) \<Longrightarrow>
     reportEvil env s preBlock blk = snd (sendTransaction env s (Timestamp blk) PoDReport bs)"
    by (simp add: reportEvil_def Let_def bs_def rep_def)
  have b: "\<not> (enable s \<and> NodeUpdateAtHeight env (Height (tail s)) \<and>
       fst (isProposer env (Timestamp blk) (miner s))) \<Longrightarrow> reportEvil env s preBlock blk = s"
    by (auto simp add: reportEvil_def Let_def)
  define r where "r = sendTransaction env s (Timestamp blk) PoDReport bs"
  have c: "(fst r = None \<longrightarrow>
             (\<exists>tx payload.
                 NewPodPayload env (serial (Timestamp blk)) PoDReport bs = Inr payload \<and>
                 PodPayloadToBytes env payload = Inr (tx_payload tx) \<and>
                 tx_timestamp tx = Timestamp blk \<and> tx_from tx = miner s \<and>
                 tx_to tx = PoDContract env \<and> tx_payloadType tx = TxPayloadPodType \<and>
                 snd r = s\<lparr>operations := operations s @ [OpPushTransaction tx]\<rparr>)) \<and>
          (fst r \<noteq> None \<longrightarrow> snd r = s)"
  proof (intro conjI impI)
    assume n: "fst r = None"
    with sendTransaction_cases [of env s "Timestamp blk" PoDReport bs]
    obtain tx payload where
      "NewPodPayload env (serial (Timestamp blk)) PoDReport bs = Inr payload"
      "PodPayloadToBytes env payload = Inr (tx_payload tx)"
      "tx_timestamp tx = Timestamp blk" "tx_from tx = miner s"
      "tx_to tx = PoDContract env" "tx_payloadType tx = TxPayloadPodType"
      "snd r = s\<lparr>operations := operations s @ [OpPushTransaction tx]\<rparr>"
      unfolding r_def [symmetric] by auto
    then show "\<exists>tx payload.
                 NewPodPayload env (serial (Timestamp blk)) PoDReport bs = Inr payload \<and>
                 PodPayloadToBytes env payload = Inr (tx_payload tx) \<and>
                 tx_timestamp tx = Timestamp blk \<and> tx_from tx = miner s \<and>
                 tx_to tx = PoDContract env \<and> tx_payloadType tx = TxPayloadPodType \<and>
                 snd r = s\<lparr>operations := operations s @ [OpPushTransaction tx]\<rparr>"
      by blast
  next
    assume "fst r \<noteq> None"
    with sendTransaction_cases [of env s "Timestamp blk" PoDReport bs]
    show "snd r = s" unfolding r_def [symmetric] by auto
  qed
  show ?thesis
    unfolding Let_def rep_def [symmetric] bs_def [symmetric] r_def [symmetric]
    using a b c unfolding r_def [symmetric] by blast
qed

lemma lru_Add_Peek: "lru_Peek k (lru_Add k v c) = Some v"
  by (simp add: lru_Peek_def lru_Add_def lru_size_def)

lemma slot_consistent_Add:
  "slot_consistent c \<Longrightarrow> slot_consistent (lru_Add (Timestamp b) b c)"
  unfolding slot_consistent_def lru_Add_def lru_Remove_def list_all_iff
  by (auto dest!: in_set_takeD)

lemma VerifyBlock_result:
  "VerifyBlock env s blk = (None, s\<lparr>slot := lru_Add (Timestamp blk) blk (slot s)\<rparr>) \<or>
   (\<exists>e. VerifyBlock env s blk = (Some e, s))"
  by (simp add: VerifyBlock_def Let_def split: sum.splits option.splits)

lemma smod_interval_zero: "((k::int) smod 15000 = 0) = (k mod 15000 = 0)"
proof (cases "0 \<le> k")
  case True
  then show ?thesis by (simp add: smod_pos_const)
next
  case False
  have "((- k) mod 15000 = 0) = (k mod 15000 = 0)"
    by (simp only: mod_eq_0_iff_dvd dvd_minus_iff)
  with False show ?thesis by (simp add: smod_pos_const)
qed

lemma go_mod_interval_zero: "(go_mod a BlockIntervalInMs = 0) = (sint a mod 15000 = 0)"
proof -
  define r where "r = sint a smod 15000"
  have p: "0 \<le> sint a mod 15000" "sint a mod 15000 < 15000"
    "0 \<le> (- sint a) mod 15000" "(- sint a) mod 15000 < 15000"
    by simp_all
  have b: "- 15000 < r \<and> r < 15000"
  proof (cases "0 \<le> sint a")
    case True
    then have "r = sint a mod 15000" by (simp add: r_def smod_pos_const)
    with p(1,2) show ?thesis by linarith
  next
    case False
    then have "r = - ((- sint a) mod 15000)" by (simp add: r_def smod_pos_const)
    with p(3,4) show ?thesis by linarith
  qed
  then have s: "sint (word_of_int r :: int64) = r" by (intro sint64_of_int) simp_all
  have "((word_of_int r :: int64) = 0) = (r = 0)"
  proof
    assume "(word_of_int r :: int64) = 0"
    with s show "r = 0" by simp
  next
    assume "r = 0"
    then show "(word_of_int r :: int64) = 0" by simp
  qed
  then show ?thesis
    by (simp add: go_mod_def BlockIntervalInMs_def r_def [symmetric])
      (simp add: r_def smod_interval_zero)
qed

lemma VerifyBlock_interval:
  assumes "Timestamp blk = cr_Timestamp (ConsensusRoot blk)"
    and "Timestamp blk * SecondInMs \<le>s 0 \<or>
         go_mod (Timestamp blk * SecondInMs) BlockIntervalInMs \<noteq> 0"
  shows "VerifyBlock env s blk = (Some ErrInvalidBlockInterval, s)"
  using assms by (auto simp add: VerifyBlock_def Let_def)

text \<open>
  Claim C6, as amended. \<open>VerifyBlock\<close> fails with \<open>InvalidBlockTimestamp\<close> when the
  block's timestamp differs from the one of its consensus root; otherwise, for a block
  whose timestamp in milliseconds fits in 64 bits, it fails with \<open>InvalidBlockInterval\<close>
  when that timestamp in milliseconds, as an integer, is not positive or not a multiple of
  \<open>BlockIntervalMs\<close>; any failure leaves the slot cache as it is, and success adds the
  block under its timestamp; so a cache whose entries are keyed by their block's timestamp
  stays so.
\<close>

theorem VerifyBlock_spec:
  "(Timestamp blk \<noteq> cr_Timestamp (ConsensusRoot blk) \<longrightarrow>
      VerifyBlock env s blk = (Some ErrInvalidBlockTimestamp, s)) \<and>
   (Timestamp blk = cr_Timestamp (ConsensusRoot blk) \<and>
    - 9223372036854775808 \<le> timestamp_ms blk \<and> timestamp_ms blk < 9223372036854775808 \<and>
    (timestamp_ms blk \<le> 0 \<or> timestamp_ms blk mod sint BlockIntervalInMs \<noteq> 0) \<longrightarrow>
      VerifyBlock env s blk = (Some ErrInvalidBlockInterval, s)) \<and>
   (fst (VerifyBlock env s blk) \<noteq> None \<longrightarrow> snd (VerifyBlock env s blk) = s) \<and>
   (fst (VerifyBlock env s blk) = None \<longrightarrow>
      snd (VerifyBlock env s blk) = s\<lparr>slot := lru_Add (Timestamp blk) blk (slot s)\<rparr> \<and>
      lru_Peek (Timestamp blk) (slot (snd (VerifyBlock env s blk))) = Some blk) \<and>
   (slot_consistent (slot s) \<longrightarrow> slot_consistent (slot (snd (VerifyBlock env s blk))))"
proof -
  have a: "Timestamp blk \<noteq> cr_Timestamp (ConsensusRoot blk) \<Longrightarrow>
      VerifyBlock env s blk = (Some ErrInvalidBlockTimestamp, s)"
    by (simp add: VerifyBlock_def)
  have b: "VerifyBlock env s blk = (Some ErrInvalidBlockInterval, s)"
    if eq: "Timestamp blk = cr_Timestamp (ConsensusRoot blk)"
      and lo: "- 9223372036854775808 \<le> timestamp_ms blk"
      and up: "timestamp_ms blk < 9223372036854775808"
      and bad: "timestamp_ms blk \<le> 0 \<or> timestamp_ms blk mod sint BlockIntervalInMs \<noteq> 0"
  proof -
    note t = sint_timestamp_ms [OF lo up]
    have c1: "(Timestamp blk * SecondInMs \<le>s 0) = (timestamp_ms blk \<le> 0)"
      by (simp add: word_sle_eq t)
    have c2: "(go_mod (Timestamp blk * SecondInMs) BlockIntervalInMs \<noteq> 0) =
        (timestamp_ms blk mod sint BlockIntervalInMs \<noteq> 0)"
      unfolding go_mod_interval_zero t by (simp add: BlockIntervalInMs_def)
    from bad have "Timestamp blk * SecondInMs \<le>s 0 \<or>
         go_mod (Timestamp blk * SecondInMs) BlockIntervalInMs \<noteq> 0"
      by (simp only: c1 c2)
    with eq show ?thesis by (rule VerifyBlock_interval)
  qed
  from VerifyBlock_result [of env s blk] a b show ?thesis
    by (auto simp add: lru_Add_Peek slot_consistent_Add)
qed

lemma heartbeat_gate_open:
  assumes "enable s" and "NodeUpdateAtHeight env (Height (tail s))"
    and "\<not> launchBeat s \<or> midpoint now"
  shows "heartbeat env s now =
     (case getParticipants env of
        Inl e \<Rightarrow> (Some e, s\<lparr>launchBeat := True\<rparr>)
      | Inr ps \<Rightarrow>
          if AddressString env (miner s) \<in> set ps
          then sendTransaction env (s\<lparr>launchBeat := True\<rparr>) now PoDHeartbeat []
          else (Some ErrMinerNotSignUp, s\<lparr>launchBeat := True\<rparr>))"
  using assms
  by (auto simp add: heartbeat_def midpoint_def Let_def list_ex_iff split: sum.splits)

lemma heartbeat_gate_closed:
  assumes "enable s" and "launchBeat s" and "\<not> midpoint now"
  shows "heartbeat env s now = (None, s)"
  using assms by (simp add: heartbeat_def midpoint_def)

lemma heartbeat_sets_launchBeat:
  assumes "enable s" and "NodeUpdateAtHeight env (Height (tail s))" and "\<not> launchBeat s"
  shows "launchBeat (snd (heartbeat env s now)) \<and> enable (snd (heartbeat env s now))"
  using assms
  by (simp add: heartbeat_gate_open sendTransaction_fields split: sum.splits)

text \<open>
  Claim C10. Once \<open>heartbeat\<close> passes the enable and activation gates with \<open>launchBeat\<close>
  unset, \<open>launchBeat\<close> is set whatever the attempt to send does: when the participants
  cannot be read, when the miner is not among them, and when \<open>sendTransaction\<close> fails. So
  the next call that is not at a dynasty midpoint returns without an attempt, and a call at
  a midpoint behaves like a first call.
\<close>

theorem heartbeat_first_beat_not_retried:
  "enable s \<and> NodeUpdateAtHeight env (Height (tail s)) \<and> \<not> launchBeat s \<longrightarrow>
     launchBeat (snd (heartbeat env s now)) \<and>
     (\<forall>e. getParticipants env = Inl e \<longrightarrow>
          heartbeat env s now = (Some e, s\<lparr>launchBeat := True\<rparr>)) \<and>
     (\<forall>ps. getParticipants env = Inr ps \<and> AddressString env (miner s) \<notin> set ps \<longrightarrow>
          heartbeat env s now = (Some ErrMinerNotSignUp, s\<lparr>launchBeat := True\<rparr>)) \<and>
     (\<forall>ps. getParticipants env = Inr ps \<and> AddressString env (miner s) \<in> set ps \<longrightarrow>
          heartbeat env s now = sendTransaction env (s\<lparr>launchBeat := True\<rparr>) now PoDHeartbeat []) \<and>
     (\<forall>(env' :: 'b env) now'. \<not> midpoint now' \<longrightarrow>
          heartbeat env' (snd (heartbeat env s now)) now' = (None, snd (heartbeat env s now))) \<and>
     (\<forall>(env' :: 'b env) now'. midpoint now' \<and>
          NodeUpdateAtHeight env' (Height (tail (snd (heartbeat env s now)))) \<longrightarrow>
          heartbeat env' (snd (heartbeat env s now)) now' =
            heartbeat env' ((snd (heartbeat env s now))\<lparr>launchBeat := False\<rparr>) now')"
proof (intro impI)
  assume h: "enable s \<and> NodeUpdateAtHeight env (Height (tail s)) \<and> \<not> launchBeat s"
  define s1 where "s1 = snd (heartbeat env s now)"
  have l: "launchBeat s1" and e: "enable s1"
    using heartbeat_sets_launchBeat [of s env now] h by (simp_all add: s1_def)
  have o: "heartbeat env s now =
     (case getParticipants env of
        Inl e \<Rightarrow> (Some e, s\<lparr>launchBeat := True\<rparr>)
      | Inr ps \<Rightarrow>
          if AddressString env (miner s) \<in> set ps
          then sendTransaction env (s\<lparr>launchBeat := True\<rparr>) now PoDHeartbeat []
          else (Some ErrMinerNotSignUp, s\<lparr>launchBeat := True\<rparr>))"
    using h by (simp add: heartbeat_gate_open)
  have c: "\<And>(env' :: 'b env) now'. \<not> midpoint now' \<Longrightarrow> heartbeat env' s1 now' = (None, s1)"
    using e l by (rule heartbeat_gate_closed)
  have m: "\<And>(env' :: 'b env) now'. midpoint now' \<and> NodeUpdateAtHeight env' (Height (tail s1)) \<Longrightarrow>
      heartbeat env' s1 now' = heartbeat env' (s1\<lparr>launchBeat := False\<rparr>) now'"
  proof -
    fix env' :: "'b env" and now'
    assume g: "midpoint now' \<and> NodeUpdateAtHeight env' (Height (tail s1))"
    have "s1\<lparr>launchBeat := True\<rparr> = s1" using l by simp
    then show "heartbeat env' s1 now' = heartbeat env' (s1\<lparr>launchBeat := False\<rparr>) now'"
      using g e by (simp add: heartbeat_gate_open split: sum.splits)
  qed
  show "launchBeat (snd (heartbeat env s now)) \<and>
     (\<forall>e. getParticipants env = Inl e \<longrightarrow>
          heartbeat env s now = (Some e, s\<lparr>launchBeat := True\<rparr>)) \<and>
     (\<forall>ps. getParticipants env = Inr ps \<and> AddressString env (miner s) \<notin> set ps \<longrightarrow>
          heartbeat env s now = (Some ErrMinerNotSignUp, s\<lparr>launchBeat := True\<rparr>)) \<and>
     (\<forall>ps. getParticipants env = Inr ps \<and> AddressString env (miner s) \<in> set ps \<longrightarrow>
          heartbeat env s now = sendTransaction env (s\<lparr>launchBeat := True\<rparr>) now PoDHeartbeat []) \<and>
     (\<forall>(env' :: 'b env) now'. \<not> midpoint now' \<longrightarrow>
          heartbeat env' (snd (heartbeat env s now)) now' = (None, snd (heartbeat env s now))) \<and>
     (\<forall>(env' :: 'b env) now'. midpoint now' \<and>
          NodeUpdateAtHeight env' (Height (tail (snd (heartbeat env s now)))) \<longrightarrow>
          heartbeat env' (snd (heartbeat env s now)) now' =
            heartbeat env' ((snd (heartbeat env s now))\<lparr>launchBeat := False\<rparr>) now')"
    using l c m unfolding s1_def [symmetric] by (simp add: o)
qed


section \<open>The statements on the example data\<close>

lemma block_at_sel:
  "Height (block_at h ts hsh parent mnr prop) = h"
  "Timestamp (block_at h ts hsh parent mnr prop) = ts"
  "Hash (block_at h ts hsh parent mnr prop) = hsh"
  "ParentHash (block_at h ts hsh parent mnr prop) = parent"
  "Miner (block_at h ts hsh parent mnr prop) = mnr"
  "ConsensusRoot (block_at h ts hsh parent mnr prop) = \<lparr>cr_Timestamp = ts, Proposer = prop\<rparr>"
  "HasRandomSeed (block_at h ts hsh parent mnr prop) = True"
  "Alg (block_at h ts hsh parent mnr prop) = SECP256K1"
  "Signature (block_at h ts hsh parent mnr prop) = []"
  by (simp_all add: block_at_def)

lemmas lru_defs = lru_Get_def lru_Peek_def lru_Add_def lru_Remove_def lru_size_def

lemma example_slot_peek: "lru_Peek 15 (slot example_pod) = Some (block_at 2 15 [2] [1] [7] [7])"
    "lru_Peek 30 (slot example_pod) = None"
    by (simp_all add: example_pod_def lru_defs)

lemma example_slot_get: "example_pod\<lparr>slot := snd (lru_Get 15 (slot example_pod))\<rparr> = example_pod"
    by (simp add: example_pod_def lru_defs)

lemma example_gate: "enable example_pod" "miner example_pod = [7]"
    "NodeUpdateAtHeight example_env h" "isProposer example_env t m = (True, None)"
    "AddressString example_env [7] = ''miner-7''"
    "fst (ReportToBytes example_env r) = [if rp_Evil r = AttackDoubleSpend then 1 else 2]"
    by (simp_all add: example_env_def example_pod_def)


lemma env_sel:
  "NewPodPayload example_env sr a d = Inr \<lparr>pp_Serial = sr, pp_Action = a, pp_Data = d\<rparr>"
  "PodPayloadToBytes example_env pl = Inr (pp_Data pl)"
  "GetAccountNonce example_env b ad = Inr 41"
  "ChainID example_env = 1" "PoDContract example_env = [9]"
  "TransactionMaxGasPrice example_env = 1000" "TransactionMaxGas example_env = 50000"
  "NewTransactionError example_env tx = None"
  "HashTransaction example_env tx = Inr [3]"
  "SignTransaction example_env ad tx = Inr (SECP256K1, [4])"
  "PushAndBroadcastTx example_env tx = None"
  by (simp_all add: example_env_def)

lemma pod_sel:
  "enableRemoteSignServer example_pod = False" "miner example_pod = [7]"
  "operations example_pod = []"
  by (simp_all add: example_pod_def)

lemma send_example:
  "sendTransaction example_env example_pod 15 PoDReport dat =
      (None, example_pod\<lparr>operations :=
       [OpPushTransaction
          \<lparr>tx_chainID = 1, tx_from = [7], tx_to = [9], tx_value = 0, tx_nonce = 42,
           tx_payloadType = TxPayloadPodType, tx_payload = dat, tx_gasPrice = 1000,
           tx_gasLimit = 50000, tx_timestamp = 15, tx_hash = [3],
           tx_sign = Some (SECP256K1, [4])\<rparr>]\<rparr>)"
  by (simp add: sendTransaction_def signTransaction_def env_sel pod_sel Let_def)


lemma env_sel2:
  "NodeUpdateAtHeight example_env h = True"
  "RandomAvailableAtHeight example_env h = True"
  "isProposer example_env t m = (True, None)"
  "getDynasty example_env t = Inr ()"
  "TraverseDynasty example_env tr = Inr [[7]]"
  "FindProposer example_env t ms = Inr [7]"
  "getParticipants example_env = Inr [''miner-7'']"
  "AddressParseFromBytes example_env bs = Inr bs"
  "AddressString example_env ad = (if ad = [7] then ''miner-7'' else ''miner-other'')"
  "BlockString example_env b = ''block''"
  "RecoverSignerFromSignature example_env al hs sg = Inr [7]"
  "broadcastWitness example_env hs' = None"
  "StoreLIBHashToStorage example_env b = None"
  "SetTailBlockError example_env b = None"
  "ReportToBytes example_env r = ([if rp_Evil r = AttackDoubleSpend then 1 else 2], None)"
  by (simp_all add: example_env_def)

lemma pod_sel2:
  "enable example_pod = True" "launchBeat example_pod = False"
  "tail example_pod = block_at 3 30 [3] [2] [7] [7]"
  "lib example_pod = block_at 2 15 [2] [1] [7] [7]"
  "slot example_pod = [(15, block_at 2 15 [2] [1] [7] [7])]"
  "reversible example_pod = [([3], [3])]"
  "detachedTailBlocks example_pod = []"
  by (simp_all add: example_pod_def)

text \<open>
  The theorem of C4 on scenario S6: the cache holds a block at timestamp 15; a block with
  another hash at 15 is a double mint, the same block and a block at 30 are not.
\<close>

theorem CheckDoubleMint_spec_witness:
  "lru_Peek 15 (slot example_pod) = Some (block_at 2 15 [2] [1] [7] [7]) \<and>
   Hash (block_at 2 15 [2] [1] [7] [7]) \<noteq> Hash (block_at 2 15 [8] [1] [7] [7]) \<and>
   CheckDoubleMint example_env example_pod (block_at 2 15 [8] [1] [7] [7]) =
     (True, reportEvil example_env example_pod
              (block_at 2 15 [2] [1] [7] [7]) (block_at 2 15 [8] [1] [7] [7])) \<and>
   CheckDoubleMint example_env example_pod (block_at 2 15 [2] [1] [7] [7]) = (False, example_pod) \<and>
   lru_Peek 30 (slot example_pod) = None \<and>
   CheckDoubleMint example_env example_pod (block_at 3 30 [3] [2] [7] [7]) = (False, example_pod)"
proof -
  let ?A = "block_at 2 15 [2] [1] [7] [7]"
  let ?B = "block_at 2 15 [8] [1] [7] [7]"
  let ?C = "block_at 3 30 [3] [2] [7] [7]"
  have pa: "lru_Peek (Timestamp ?B) (slot example_pod) = Some ?A"
    "lru_Peek (Timestamp ?A) (slot example_pod) = Some ?A"
    "lru_Peek (Timestamp ?C) (slot example_pod) = None"
    by (simp_all add: example_slot_peek block_at_sel)
  have ga: "example_pod\<lparr>slot := snd (lru_Get (Timestamp ?B) (slot example_pod))\<rparr> = example_pod"
    "example_pod\<lparr>slot := snd (lru_Get (Timestamp ?A) (slot example_pod))\<rparr> = example_pod"
    by (simp_all add: example_slot_get block_at_sel)
  have h: "Hash ?A \<noteq> Hash ?B" by (simp add: block_at_sel)
  have 1: "CheckDoubleMint example_env example_pod ?B =
      (True, reportEvil example_env example_pod ?A ?B)"
    using CheckDoubleMint_spec [of example_env example_pod ?B, THEN conjunct2, THEN conjunct1,
        rule_format, of ?A] pa(1) h
    by (simp only: ga simp_thms)
  have 2: "CheckDoubleMint example_env example_pod ?A = (False, example_pod)"
    using CheckDoubleMint_spec [of example_env example_pod ?A, THEN conjunct2, THEN conjunct2,
        THEN conjunct2, rule_format, of ?A] pa(2)
    by (simp only: ga simp_thms)
  have 3: "CheckDoubleMint example_env example_pod ?C = (False, example_pod)"
    using CheckDoubleMint_spec [of example_env example_pod ?C, THEN conjunct2, THEN conjunct2,
        THEN conjunct1] pa(3)
    by (simp only: simp_thms)
  show ?thesis using 1 2 3 h example_slot_peek by (simp only: simp_thms)
qed


text \<open>
  The theorem of C5 on scenario S6: the same miner gives the report of kind
  \<open>AttackDoubleSpend\<close> (payload 1), different miners \<open>AttackNotMiner\<close> (payload 2), with
  mining disabled nothing is sent, and with a pool that rejects the transaction the call
  returns an error and the state is unchanged.
\<close>

theorem reportEvil_spec_witness:
  "enable example_pod \<and> NodeUpdateAtHeight example_env (Height (tail example_pod)) \<and>
   fst (isProposer example_env (Timestamp (block_at 2 15 [8] [1] [7] [7])) (miner example_pod)) \<and>
   reportEvil example_env example_pod
       (block_at 2 15 [2] [1] [7] [7]) (block_at 2 15 [8] [1] [7] [7]) =
     example_pod\<lparr>operations :=
       [OpPushTransaction
          \<lparr>tx_chainID = 1, tx_from = [7], tx_to = [9], tx_value = 0, tx_nonce = 42,
           tx_payloadType = TxPayloadPodType, tx_payload = [1], tx_gasPrice = 1000,
           tx_gasLimit = 50000, tx_timestamp = 15, tx_hash = [3],
           tx_sign = Some (SECP256K1, [4])\<rparr>]\<rparr> \<and>
   reportEvil example_env example_pod
       (block_at 2 15 [2] [1] [6] [7]) (block_at 2 15 [8] [1] [7] [7]) =
     example_pod\<lparr>operations :=
       [OpPushTransaction
          \<lparr>tx_chainID = 1, tx_from = [7], tx_to = [9], tx_value = 0, tx_nonce = 42,
           tx_payloadType = TxPayloadPodType, tx_payload = [2], tx_gasPrice = 1000,
           tx_gasLimit = 50000, tx_timestamp = 15, tx_hash = [3],
           tx_sign = Some (SECP256K1, [4])\<rparr>]\<rparr> \<and>
   reportEvil example_env (example_pod\<lparr>enable := False\<rparr>)
       (block_at 2 15 [2] [1] [7] [7]) (block_at 2 15 [8] [1] [7] [7]) =
     example_pod\<lparr>enable := False\<rparr> \<and>
   fst (sendTransaction failing_pool_env example_pod 15 PoDReport [1]) =
     Some (ErrCollaborator ''pool'') \<and>
   reportEvil failing_pool_env example_pod
       (block_at 2 15 [2] [1] [7] [7]) (block_at 2 15 [8] [1] [7] [7]) = example_pod"
proof -
  let ?A = "block_at 2 15 [2] [1] [7] [7]"
  let ?A' = "block_at 2 15 [2] [1] [6] [7]"
  let ?B = "block_at 2 15 [8] [1] [7] [7]"
  have gate: "enable example_pod \<and> NodeUpdateAtHeight example_env (Height (tail example_pod)) \<and>
      fst (isProposer example_env (Timestamp ?B) (miner example_pod))"
    by (simp add: env_sel2 pod_sel2)
  have 1: "reportEvil example_env example_pod ?A ?B =
      snd (sendTransaction example_env example_pod 15 PoDReport [1])"
    using reportEvil_spec [where env = example_env and s = example_pod and preBlock = ?A
        and blk = ?B, THEN conjunct1, rule_format, OF gate, unfolded Let_def, THEN conjunct1]
    by (simp add: env_sel2 block_at_sel)
  have 2: "reportEvil example_env example_pod ?A' ?B =
      snd (sendTransaction example_env example_pod 15 PoDReport [2])"
    using reportEvil_spec [where env = example_env and s = example_pod and preBlock = ?A'
        and blk = ?B, THEN conjunct1, rule_format, OF gate, unfolded Let_def, THEN conjunct1]
    by (simp add: env_sel2 block_at_sel)
  have 3: "reportEvil example_env (example_pod\<lparr>enable := False\<rparr>) ?A ?B =
      example_pod\<lparr>enable := False\<rparr>"
    using reportEvil_spec [where env = example_env and s = "example_pod\<lparr>enable := False\<rparr>"
        and preBlock = ?A and blk = ?B, THEN conjunct2]
    by simp
  have gate2: "enable example_pod \<and>
      NodeUpdateAtHeight failing_pool_env (Height (tail example_pod)) \<and>
      fst (isProposer failing_pool_env (Timestamp ?B) (miner example_pod))"
    by (simp add: failing_pool_env_def env_sel2 pod_sel2)
  have sd: "sendTransaction failing_pool_env example_pod ts PoDReport dat =
      (Some (ErrCollaborator ''pool''), example_pod)" for ts dat
    by (simp add: sendTransaction_def signTransaction_def failing_pool_env_def env_sel pod_sel
          Let_def)
  have f: "fst (sendTransaction failing_pool_env example_pod ts PoDReport dat) \<noteq> None"
    for ts dat
    by (simp add: sd)
  note t4 = reportEvil_spec [where env = failing_pool_env and s = example_pod and preBlock = ?A
        and blk = ?B, THEN conjunct1, rule_format, OF gate2, unfolded Let_def]
  have 4: "reportEvil failing_pool_env example_pod ?A ?B = example_pod"
    using t4 [THEN conjunct1] t4 [THEN conjunct2, THEN conjunct2, THEN mp, OF f] by simp
  show ?thesis using gate 1 2 3 4 by (simp add: send_example sd)
qed


text \<open>
  Claim C5 as stated fails when a step of \<open>sendTransaction\<close> fails: with mining enabled,
  the node beyond the activation height and the local miner the proposer, a pool that
  rejects the transaction leaves \<open>reportEvil\<close> with no transaction submitted.
\<close>

theorem reportEvil_pool_failure_counterexample:
  "enable example_pod \<and> NodeUpdateAtHeight failing_pool_env (Height (tail example_pod)) \<and>
   fst (isProposer failing_pool_env (Timestamp (block_at 2 15 [8] [1] [7] [7]))
          (miner example_pod)) \<and>
   operations example_pod = [] \<and>
   reportEvil failing_pool_env example_pod
       (block_at 2 15 [2] [1] [7] [7]) (block_at 2 15 [8] [1] [7] [7]) = example_pod \<and>
   operations (reportEvil failing_pool_env example_pod
       (block_at 2 15 [2] [1] [7] [7]) (block_at 2 15 [8] [1] [7] [7])) = []"
proof -
  let ?A = "block_at 2 15 [2] [1] [7] [7]"
  let ?B = "block_at 2 15 [8] [1] [7] [7]"
  have gate: "enable example_pod \<and> NodeUpdateAtHeight failing_pool_env (Height (tail example_pod)) \<and>
      fst (isProposer failing_pool_env (Timestamp ?B) (miner example_pod))"
    by (simp add: failing_pool_env_def env_sel2 pod_sel2)
  have sd: "sendTransaction failing_pool_env example_pod ts PoDReport dat =
      (Some (ErrCollaborator ''pool''), example_pod)" for ts dat
    by (simp add: sendTransaction_def signTransaction_def failing_pool_env_def env_sel pod_sel
          Let_def)
  have r: "reportEvil failing_pool_env example_pod ?A ?B = example_pod"
    using gate by (simp add: reportEvil_def Let_def sd)
  show ?thesis using gate r by (simp add: pod_sel)
qed


text \<open>
  The theorem of C6 on a block that verifies, on one whose consensus root has another
  timestamp, and on two whose timestamps are not a positive multiple of the interval.
\<close>

theorem VerifyBlock_spec_witness:
  "VerifyBlock example_env example_pod (block_at 4 45 [4] [3] [7] [7]) =
     (None, example_pod\<lparr>slot := [(45, block_at 4 45 [4] [3] [7] [7]),
                                  (15, block_at 2 15 [2] [1] [7] [7])]\<rparr>) \<and>
   lru_Peek 45 (slot (snd (VerifyBlock example_env example_pod (block_at 4 45 [4] [3] [7] [7])))) =
     Some (block_at 4 45 [4] [3] [7] [7]) \<and>
   slot_consistent (slot example_pod) \<and>
   slot_consistent (slot (snd (VerifyBlock example_env example_pod (block_at 4 45 [4] [3] [7] [7])))) \<and>
   VerifyBlock example_env example_pod
     ((block_at 4 45 [4] [3] [7] [7])\<lparr>ConsensusRoot := \<lparr>cr_Timestamp = 30, Proposer = [7]\<rparr>\<rparr>) =
     (Some ErrInvalidBlockTimestamp, example_pod) \<and>
   timestamp_ms (block_at 4 16 [4] [3] [7] [7]) = 16000 \<and>
   VerifyBlock example_env example_pod (block_at 4 16 [4] [3] [7] [7]) =
     (Some ErrInvalidBlockInterval, example_pod) \<and>
   timestamp_ms (block_at 4 0 [4] [3] [7] [7]) = 0 \<and>
   VerifyBlock example_env example_pod (block_at 4 0 [4] [3] [7] [7]) =
     (Some ErrInvalidBlockInterval, example_pod)"
proof -
  let ?D = "block_at 4 45 [4] [3] [7] [7]"
  let ?E = "(block_at 4 45 [4] [3] [7] [7])\<lparr>ConsensusRoot := \<lparr>cr_Timestamp = 30, Proposer = [7]\<rparr>\<rparr>"
  let ?F = "block_at 4 16 [4] [3] [7] [7]"
  let ?G = "block_at 4 0 [4] [3] [7] [7]"
  have ok: "fst (VerifyBlock example_env example_pod ?D) = None"
    by (simp add: VerifyBlock_def verifyBlockSign_def env_sel2 block_at_sel Let_def
          SecondInMs_def BlockIntervalInMs_def go_mod_def signed_modulo_int_def word_sle_eq)
  have sc: "slot_consistent (slot example_pod)"
    by (simp add: slot_consistent_def pod_sel2 block_at_sel)
  have m: "timestamp_ms ?F = 16000" "timestamp_ms ?G = 0"
    by (simp_all add: timestamp_ms_def block_at_sel SecondInMs_def)
  note t = VerifyBlock_spec [of ?D example_env example_pod]
  have 1: "snd (VerifyBlock example_env example_pod ?D) =
             example_pod\<lparr>slot := lru_Add (Timestamp ?D) ?D (slot example_pod)\<rparr> \<and>
           lru_Peek (Timestamp ?D) (slot (snd (VerifyBlock example_env example_pod ?D))) = Some ?D"
    using t [THEN conjunct2, THEN conjunct2, THEN conjunct2, THEN conjunct1] ok by blast
  have 2: "slot_consistent (slot (snd (VerifyBlock example_env example_pod ?D)))"
    using t [THEN conjunct2, THEN conjunct2, THEN conjunct2, THEN conjunct2] sc by blast
  have a: "lru_Add (Timestamp ?D) ?D (slot example_pod) = [(45, ?D), (15, block_at 2 15 [2] [1] [7] [7])]"
    by (simp add: lru_defs pod_sel2 block_at_sel)
  have 3: "VerifyBlock example_env example_pod ?D =
     (None, example_pod\<lparr>slot := [(45, ?D), (15, block_at 2 15 [2] [1] [7] [7])]\<rparr>)"
    using ok 1 a by (simp add: prod_eq_iff)
  have 4: "VerifyBlock example_env example_pod ?E = (Some ErrInvalidBlockTimestamp, example_pod)"
    using VerifyBlock_spec [of ?E example_env example_pod, THEN conjunct1]
    by (simp add: block_at_sel)
  have 5: "VerifyBlock example_env example_pod ?F = (Some ErrInvalidBlockInterval, example_pod)"
    using VerifyBlock_spec [of ?F example_env example_pod, THEN conjunct2, THEN conjunct1]
    by (simp add: m block_at_sel BlockIntervalInMs_def)
  have 6: "VerifyBlock example_env example_pod ?G = (Some ErrInvalidBlockInterval, example_pod)"
    using VerifyBlock_spec [of ?G example_env example_pod, THEN conjunct2, THEN conjunct1]
    by (simp add: m block_at_sel)
  have 7: "lru_Peek 45 (slot (snd (VerifyBlock example_env example_pod ?D))) = Some ?D"
    using 1 [THEN conjunct2] by (simp only: block_at_sel)
  show ?thesis using 2 3 4 5 6 7 sc m by (simp only: simp_thms)
qed

text \<open>
  Claim C6 as stated, for every block, fails where the 64-bit product
  \<open>timestamp \<cdot> SecondMs\<close> wraps around: the timestamps \<open>- (2^61 - 15)\<close> and \<open>2^61 + 15\<close>
  both give the product 15000, so a block whose timestamp in milliseconds is negative and
  one whose timestamp in milliseconds is not a multiple of \<open>BlockIntervalMs\<close> are verified
  and added to the slot cache.
\<close>

theorem VerifyBlock_overflow_counterexample:
  "timestamp_ms (block_at 4 (- 2305843009213693937) [4] [3] [7] [7]) = - 2305843009213693937000 \<and>
   fst (VerifyBlock example_env example_pod
          (block_at 4 (- 2305843009213693937) [4] [3] [7] [7])) = None \<and>
   lru_Peek (- 2305843009213693937)
      (slot (snd (VerifyBlock example_env example_pod
          (block_at 4 (- 2305843009213693937) [4] [3] [7] [7])))) =
     Some (block_at 4 (- 2305843009213693937) [4] [3] [7] [7]) \<and>
   timestamp_ms (block_at 4 2305843009213693967 [4] [3] [7] [7]) = 2305843009213693967000 \<and>
   timestamp_ms (block_at 4 2305843009213693967 [4] [3] [7] [7]) mod sint BlockIntervalInMs = 2000 \<and>
   fst (VerifyBlock example_env example_pod
          (block_at 4 2305843009213693967 [4] [3] [7] [7])) = None \<and>
   lru_Peek 2305843009213693967
      (slot (snd (VerifyBlock example_env example_pod
          (block_at 4 2305843009213693967 [4] [3] [7] [7])))) =
     Some (block_at 4 2305843009213693967 [4] [3] [7] [7])"
proof -
  let ?N = "block_at 4 (- 2305843009213693937) [4] [3] [7] [7]"
  let ?P = "block_at 4 2305843009213693967 [4] [3] [7] [7]"
  have m: "timestamp_ms ?N = - 2305843009213693937000"
    "timestamp_ms ?P = 2305843009213693967000"
    by (simp_all add: timestamp_ms_def block_at_sel SecondInMs_def)
  have r: "2305843009213693967000 mod sint BlockIntervalInMs = 2000"
    by (simp add: BlockIntervalInMs_def)
  have w: "Timestamp ?N * SecondInMs = 15000" "Timestamp ?P * SecondInMs = 15000"
    by (simp_all add: block_at_sel SecondInMs_def)
  have i: "\<not> (15000 :: int64) \<le>s 0" "go_mod 15000 BlockIntervalInMs = 0"
    by (simp_all add: word_sle_eq go_mod_def BlockIntervalInMs_def signed_modulo_int_def)
  have g: "VerifyBlock example_env example_pod b =
      (None, example_pod\<lparr>slot := lru_Add (Timestamp b) b (slot example_pod)\<rparr>)"
    if "Timestamp b = cr_Timestamp (ConsensusRoot b)" and "Timestamp b * SecondInMs = 15000"
      and "HasRandomSeed b" for b
    using that by (simp add: VerifyBlock_def Let_def i verifyBlockSign_def env_sel2)
  have vn: "VerifyBlock example_env example_pod ?N =
      (None, example_pod\<lparr>slot := lru_Add (Timestamp ?N) ?N (slot example_pod)\<rparr>)"
    by (rule g) (simp_all add: w, simp_all add: block_at_sel)
  have vp: "VerifyBlock example_env example_pod ?P =
      (None, example_pod\<lparr>slot := lru_Add (Timestamp ?P) ?P (slot example_pod)\<rparr>)"
    by (rule g) (simp_all add: w, simp_all add: block_at_sel)
  have pn: "lru_Peek (- 2305843009213693937) (slot (snd (VerifyBlock example_env example_pod ?N))) =
      Some ?N"
    using lru_Add_Peek [of "Timestamp ?N" ?N "slot example_pod"]
    by (simp add: vn block_at_sel)
  have pp: "lru_Peek 2305843009213693967 (slot (snd (VerifyBlock example_env example_pod ?P))) =
      Some ?P"
    using lru_Add_Peek [of "Timestamp ?P" ?P "slot example_pod"]
    by (simp add: vp block_at_sel)
  show ?thesis using m r vn vp pn pp by simp
qed


text \<open>The theorem of C9 with a store that fails and with one that succeeds.\<close>

theorem setLib_spec_witness:
  "StoreLIBHashToStorage failing_store_env (block_at 3 30 [3] [2] [7] [7]) \<noteq> None \<and>
   setLib failing_store_env example_pod (block_at 3 30 [3] [2] [7] [7]) 85 = example_pod \<and>
   StoreLIBHashToStorage example_env (block_at 3 30 [3] [2] [7] [7]) = None \<and>
   lib (setLib example_env example_pod (block_at 3 30 [3] [2] [7] [7]) 85) =
     block_at 3 30 [3] [2] [7] [7] \<and>
   reversible (setLib example_env example_pod (block_at 3 30 [3] [2] [7] [7]) 85) = [] \<and>
   operations (setLib example_env example_pod (block_at 3 30 [3] [2] [7] [7]) 85) =
     [OpStoreLIBHash [3], OpSetLIB [3], OpReversibleRemove [3],
      OpTrigger TopicLibBlock ''block'']"
proof -
  let ?T = "block_at 3 30 [3] [2] [7] [7]"
  have f: "StoreLIBHashToStorage failing_store_env ?T \<noteq> None"
    by (simp add: failing_store_env_def)
  have g: "StoreLIBHashToStorage example_env ?T = None" by (simp add: env_sel2)
  have 1: "setLib failing_store_env example_pod ?T 85 = example_pod"
    using setLib_spec [of failing_store_env ?T example_pod 85, THEN conjunct1] f by blast
  have 2: "lib (setLib example_env example_pod ?T 85) = ?T \<and>
      reversible (setLib example_env example_pod ?T 85) =
        lru_Remove (Hash ?T) (reversible example_pod) \<and>
      operations (setLib example_env example_pod ?T 85) =
        operations example_pod @ [OpStoreLIBHash (Hash ?T), OpSetLIB (Hash ?T),
                        OpReversibleRemove (Hash ?T),
                        OpTrigger TopicLibBlock (BlockString example_env ?T)]"
    using setLib_spec [of example_env ?T example_pod 85, THEN conjunct2] g by blast
  show ?thesis using f g 1 2
    by (simp add: block_at_sel pod_sel pod_sel2 env_sel2 lru_defs)
qed


lemma midpoint_examples: "\<not> midpoint 101" "midpoint 1800"
  by (simp_all add: midpoint_def go_mod_def go_div_def SecondInMs_def DynastyIntervalInMs_def
        signed_modulo_int_def signed_divide_int_def)

text \<open>
  The theorem of C10 with a miner that has not signed up and with a pool that rejects the
  transaction: both first beats fail, set \<open>launchBeat\<close>, and the next tick does nothing.
\<close>

theorem heartbeat_first_beat_not_retried_witness:
  "enable example_pod \<and> NodeUpdateAtHeight unsigned_miner_env (Height (tail example_pod)) \<and>
   \<not> launchBeat example_pod \<and>
   heartbeat unsigned_miner_env example_pod 100 =
     (Some ErrMinerNotSignUp, example_pod\<lparr>launchBeat := True\<rparr>) \<and>
   \<not> midpoint 101 \<and>
   heartbeat example_env (example_pod\<lparr>launchBeat := True\<rparr>) 101 =
     (None, example_pod\<lparr>launchBeat := True\<rparr>) \<and>
   heartbeat failing_pool_env example_pod 100 =
     (Some (ErrCollaborator ''pool''), example_pod\<lparr>launchBeat := True\<rparr>) \<and>
   heartbeat failing_pool_env (example_pod\<lparr>launchBeat := True\<rparr>) 101 =
     (None, example_pod\<lparr>launchBeat := True\<rparr>)"
proof -
  have g1: "enable example_pod \<and> NodeUpdateAtHeight unsigned_miner_env (Height (tail example_pod)) \<and>
      \<not> launchBeat example_pod"
    by (simp add: unsigned_miner_env_def env_sel2 pod_sel2)
  have g2: "enable example_pod \<and> NodeUpdateAtHeight failing_pool_env (Height (tail example_pod)) \<and>
      \<not> launchBeat example_pod"
    by (simp add: failing_pool_env_def env_sel2 pod_sel2)
  note t1 = heartbeat_first_beat_not_retried [where env = unsigned_miner_env and s = example_pod
      and now = 100, THEN mp, OF g1]
  note t2 = heartbeat_first_beat_not_retried [where env = failing_pool_env and s = example_pod
      and now = 100, THEN mp, OF g2]
  have p1: "getParticipants unsigned_miner_env = Inr [''miner-8''] \<and>
      AddressString unsigned_miner_env (miner example_pod) \<notin> set [''miner-8'']"
    by (simp add: unsigned_miner_env_def env_sel2 pod_sel)
  have 1: "heartbeat unsigned_miner_env example_pod 100 =
     (Some ErrMinerNotSignUp, example_pod\<lparr>launchBeat := True\<rparr>)"
    using t1 [THEN conjunct2, THEN conjunct2, THEN conjunct1, rule_format, OF p1] .
  have 2: "heartbeat example_env (snd (heartbeat unsigned_miner_env example_pod 100)) 101 =
     (None, snd (heartbeat unsigned_miner_env example_pod 100))"
    using t1 [THEN conjunct2, THEN conjunct2, THEN conjunct2, THEN conjunct2, THEN conjunct1,
        rule_format, of 101 example_env] midpoint_examples(1) by blast
  have p2: "getParticipants failing_pool_env = Inr [''miner-7''] \<and>
      AddressString failing_pool_env (miner example_pod) \<in> set [''miner-7'']"
    by (simp add: failing_pool_env_def env_sel2 pod_sel)
  have sd: "sendTransaction failing_pool_env (example_pod\<lparr>launchBeat := True\<rparr>) 100 PoDHeartbeat [] =
      (Some (ErrCollaborator ''pool''), example_pod\<lparr>launchBeat := True\<rparr>)"
    by (simp add: sendTransaction_def signTransaction_def failing_pool_env_def env_sel pod_sel
          Let_def)
  have 3: "heartbeat failing_pool_env example_pod 100 =
     (Some (ErrCollaborator ''pool''), example_pod\<lparr>launchBeat := True\<rparr>)"
    using t2 [THEN conjunct2, THEN conjunct2, THEN conjunct2, THEN conjunct1, rule_format, OF p2]
    by (simp only: sd)
  have 4: "heartbeat failing_pool_env (snd (heartbeat failing_pool_env example_pod 100)) 101 =
     (None, snd (heartbeat failing_pool_env example_pod 100))"
    using t2 [THEN conjunct2, THEN conjunct2, THEN conjunct2, THEN conjunct2, THEN conjunct1,
        rule_format, of 101 failing_pool_env] midpoint_examples(1) by blast
  show ?thesis using g1 1 2 3 4 midpoint_examples(1) by simp
qed


section \<open>Fork choice: the order and the maximum\<close>

text \<open>\<open>less\<close> is the strict lexicographic order on (height, hash).\<close>

lemma less_block_lex:
  "less_block a b \<longleftrightarrow> Height a < Height b \<or> (Height a = Height b \<and> Hash a < Hash b)"
  by (auto simp add: less_block_def byteutils_Less_def)

lemma less_block_irrefl: "\<not> less_block a a"
  by (simp add: less_block_lex)

lemma less_block_trans: "less_block a b \<Longrightarrow> less_block b c \<Longrightarrow> less_block a c"
  by (auto simp add: less_block_lex)

lemma less_block_asym: "less_block a b \<Longrightarrow> \<not> less_block b a"
  by (auto simp add: less_block_lex)

lemma less_block_total:
  "\<not> less_block a b \<Longrightarrow> \<not> less_block b a \<Longrightarrow> Height a = Height b \<and> Hash a = Hash b"
  by (auto simp add: less_block_lex)

lemma not_less_block_trans:
  "\<not> less_block a b \<Longrightarrow> \<not> less_block b c \<Longrightarrow> \<not> less_block a c"
  by (auto simp add: less_block_lex)

lemma less_block_same_key:
  "Height a = Height b \<Longrightarrow> Hash a = Hash b \<Longrightarrow> less_block a c = less_block b c"
  by (simp add: less_block_lex)

lemma foldl_pick_mem:
  "foldl (\<lambda>nt v. if less_block nt v then v else nt) t xs \<in> set (t # xs)"
  by (induction xs arbitrary: t) auto

lemma foldl_pick_ge_start:
  "\<not> less_block (foldl (\<lambda>nt v. if less_block nt v then v else nt) t xs) t"
proof (induction xs arbitrary: t)
  case Nil
  show ?case by (simp add: less_block_irrefl)
next
  case (Cons x xs)
  have "\<not> less_block (if less_block t x then x else t) t"
    by (auto simp add: less_block_irrefl dest: less_block_asym)
  with Cons [of "if less_block t x then x else t"] show ?case
    by (auto dest: not_less_block_trans)
qed

lemma foldl_pick_max:
  "b \<in> set (t # xs) \<Longrightarrow>
   \<not> less_block (foldl (\<lambda>nt v. if less_block nt v then v else nt) t xs) b"
proof (induction xs arbitrary: t)
  case Nil
  then show ?case by (simp add: less_block_irrefl)
next
  case (Cons x xs)
  let ?p = "if less_block t x then x else t"
  have px: "\<not> less_block ?p x" "\<not> less_block ?p t"
    by (auto simp add: less_block_irrefl dest: less_block_asym)
  from Cons.prems consider "b = t" | "b = x" | "b \<in> set xs" by auto
  then show ?case
  proof cases
    case 1
    with px(2) foldl_pick_ge_start [of ?p xs] show ?thesis
      by (auto dest: not_less_block_trans)
  next
    case 2
    with px(1) foldl_pick_ge_start [of ?p xs] show ?thesis
      by (auto dest: not_less_block_trans)
  next
    case 3
    with Cons.IH [of ?p] show ?thesis by simp
  qed
qed

lemma ForkChoice_unchanged:
  assumes "Hash (foldl (\<lambda>nt v. if less_block nt v then v else nt) (tail s) (detachedTailBlocks s))
             = Hash (tail s)"
  shows "ForkChoice env s = (None, s)"
  using assms by (simp add: ForkChoice_def Let_def)

lemma ForkChoice_changed:
  assumes "Hash (foldl (\<lambda>nt v. if less_block nt v then v else nt) (tail s) (detachedTailBlocks s))
             \<noteq> Hash (tail s)"
  shows "ForkChoice env s =
     (case SetTailBlockError env
             (foldl (\<lambda>nt v. if less_block nt v then v else nt) (tail s) (detachedTailBlocks s)) of
        Some e \<Rightarrow> (Some e, s)
      | None \<Rightarrow>
          (None, s\<lparr>tail := foldl (\<lambda>nt v. if less_block nt v then v else nt) (tail s)
                               (detachedTailBlocks s),
                    operations := operations s @
                      [OpSetTailBlock (Hash (foldl (\<lambda>nt v. if less_block nt v then v else nt)
                                               (tail s) (detachedTailBlocks s)))]\<rparr>))"
  using assms by (simp add: ForkChoice_def SetTailBlock_def Let_def split: option.splits)

lemma ForkChoice_at_max:
  assumes "\<forall>b\<in>set (detachedTailBlocks s). \<not> less_block (tail s) b"
  shows "ForkChoice env s = (None, s)"
proof (rule ForkChoice_unchanged)
  let ?m = "foldl (\<lambda>nt v. if less_block nt v then v else nt) (tail s) (detachedTailBlocks s)"
  have "\<not> less_block ?m (tail s)" by (rule foldl_pick_ge_start)
  moreover have "\<not> less_block (tail s) ?m"
    using foldl_pick_mem [of "tail s" "detachedTailBlocks s"] assms
    by (auto simp add: less_block_irrefl)
  ultimately show "Hash ?m = Hash (tail s)" by (auto dest: less_block_total)
qed

text \<open>
  Claim C2, as amended. After \<open>ForkChoice\<close> the tail is never smaller than the old tail
  under the order on (height, hash). When \<open>ForkChoice\<close> returns no error, the tail has the
  hash of the maximum of the old tail and the detached tails, and it is that maximum unless
  the maximum has the old tail's hash; and applying \<open>ForkChoice\<close> again to the resulting
  state, in any environment, changes nothing.
\<close>

theorem ForkChoice_spec:
  "\<not> less_block (tail (snd (ForkChoice env s))) (tail s) \<and>
   (fst (ForkChoice env s) = None \<longrightarrow>
      (\<exists>m\<in>set (tail s # detachedTailBlocks s).
          (\<forall>b\<in>set (tail s # detachedTailBlocks s). \<not> less_block m b) \<and>
          Hash (tail (snd (ForkChoice env s))) = Hash m \<and>
          (Hash m \<noteq> Hash (tail s) \<longrightarrow> tail (snd (ForkChoice env s)) = m)) \<and>
      ForkChoice (env' :: 'b env) (snd (ForkChoice env s)) = (None, snd (ForkChoice env s)))"
proof -
  let ?m = "foldl (\<lambda>nt v. if less_block nt v then v else nt) (tail s) (detachedTailBlocks s)"
  have mem: "?m \<in> set (tail s # detachedTailBlocks s)" by (rule foldl_pick_mem)
  have mx: "\<forall>b\<in>set (tail s # detachedTailBlocks s). \<not> less_block ?m b"
    using foldl_pick_max [of _ "tail s" "detachedTailBlocks s"] by blast
  show ?thesis
  proof (cases "Hash ?m = Hash (tail s)")
    case True
    have r: "ForkChoice env s = (None, s)" using True by (rule ForkChoice_unchanged)
    have r': "ForkChoice env' s = (None, s)" using True by (rule ForkChoice_unchanged)
    show ?thesis unfolding r using mem mx True r'
      by (auto simp add: less_block_irrefl)
  next
    case False
    note c = ForkChoice_changed [OF False, of env]
    show ?thesis
    proof (cases "SetTailBlockError env ?m")
      case (Some e)
      then have r: "ForkChoice env s = (Some e, s)" using c by simp
      show ?thesis unfolding r by (simp add: less_block_irrefl)
    next
      case None
      define s' where "s' = s\<lparr>tail := ?m, operations := operations s @ [OpSetTailBlock (Hash ?m)]\<rparr>"
      have r: "ForkChoice env s = (None, s')" using c None by (simp add: s'_def)
      have "\<forall>b\<in>set (detachedTailBlocks s'). \<not> less_block (tail s') b"
        using mx by (simp add: s'_def)
      then have i: "ForkChoice env' s' = (None, s')" by (rule ForkChoice_at_max)
      have t: "tail s' = ?m" by (simp add: s'_def)
      have g: "\<not> less_block ?m (tail s)" by (rule foldl_pick_ge_start)
      show ?thesis unfolding r using mem mx i g by (auto simp add: t)
    qed
  qed
qed


lemma fork_pod_sel:
  "tail fork_pod = block_at 100 1500 [0xAA] [0x10] [7] [7]"
  "detachedTailBlocks fork_pod =
     [block_at 100 1500 [0xAB] [0x10] [7] [7],
      block_at 101 1515 [0x01] [0xAA] [7] [7],
      block_at 99 1485 [0xFF] [0x11] [7] [7]]"
  "operations fork_pod = []"
  by (simp_all add: fork_pod_def pod_sel)

lemma fork_pod_max:
  "foldl (\<lambda>nt v. if less_block nt v then v else nt) (tail fork_pod) (detachedTailBlocks fork_pod)
     = block_at 101 1515 [0x01] [0xAA] [7] [7]"
  by (simp add: fork_pod_sel less_block_def byteutils_Less_def block_at_sel)

lemma ForkChoice_fork_pod:
  "ForkChoice example_env fork_pod =
     (None, fork_pod\<lparr>tail := block_at 101 1515 [0x01] [0xAA] [7] [7],
                      operations := [OpSetTailBlock [0x01]]\<rparr>)"
  "ForkChoice failing_tail_env fork_pod = (Some (ErrCollaborator ''storage''), fork_pod)"
proof -
  have ne: "Hash (foldl (\<lambda>nt v. if less_block nt v then v else nt) (tail fork_pod)
               (detachedTailBlocks fork_pod)) \<noteq> Hash (tail fork_pod)"
    unfolding fork_pod_max by (simp add: fork_pod_sel block_at_sel)
  show "ForkChoice example_env fork_pod =
     (None, fork_pod\<lparr>tail := block_at 101 1515 [0x01] [0xAA] [7] [7],
                      operations := [OpSetTailBlock [0x01]]\<rparr>)"
    unfolding ForkChoice_changed [OF ne] fork_pod_max
    by (simp add: env_sel2 fork_pod_sel block_at_sel)
  show "ForkChoice failing_tail_env fork_pod = (Some (ErrCollaborator ''storage''), fork_pod)"
    unfolding ForkChoice_changed [OF ne] fork_pod_max
    by (simp add: failing_tail_env_def)
qed

text \<open>The theorem of C2 on scenario S4: the new tail is the block at height 101.\<close>

theorem ForkChoice_spec_witness:
  "fst (ForkChoice example_env fork_pod) = None \<and>
   tail (snd (ForkChoice example_env fork_pod)) = block_at 101 1515 [0x01] [0xAA] [7] [7] \<and>
   \<not> less_block (tail (snd (ForkChoice example_env fork_pod))) (tail fork_pod) \<and>
   (\<exists>m\<in>set (tail fork_pod # detachedTailBlocks fork_pod).
       (\<forall>b\<in>set (tail fork_pod # detachedTailBlocks fork_pod). \<not> less_block m b) \<and>
       Hash (tail (snd (ForkChoice example_env fork_pod))) = Hash m) \<and>
   ForkChoice example_env (snd (ForkChoice example_env fork_pod)) =
     (None, snd (ForkChoice example_env fork_pod))"
proof -
  have n: "fst (ForkChoice example_env fork_pod) = None"
    by (simp add: ForkChoice_fork_pod)
  note t = ForkChoice_spec [of example_env fork_pod example_env]
  have 1: "\<not> less_block (tail (snd (ForkChoice example_env fork_pod))) (tail fork_pod)"
    using t [THEN conjunct1] .
  have 2: "(\<exists>m\<in>set (tail fork_pod # detachedTailBlocks fork_pod).
          (\<forall>b\<in>set (tail fork_pod # detachedTailBlocks fork_pod). \<not> less_block m b) \<and>
          Hash (tail (snd (ForkChoice example_env fork_pod))) = Hash m \<and>
          (Hash m \<noteq> Hash (tail fork_pod) \<longrightarrow> tail (snd (ForkChoice example_env fork_pod)) = m)) \<and>
      ForkChoice example_env (snd (ForkChoice example_env fork_pod)) =
        (None, snd (ForkChoice example_env fork_pod))"
    using t [THEN conjunct2, THEN mp, OF n] .
  have 3: "tail (snd (ForkChoice example_env fork_pod)) = block_at 101 1515 [0x01] [0xAA] [7] [7]"
    by (simp add: ForkChoice_fork_pod)
  show ?thesis using n 1 2 3 by blast
qed

text \<open>
  Claim C2 as stated fails when the chain cannot set the tail: \<open>ForkChoice\<close> returns the
  error and the tail stays at height 100, below the detached tail at height 101; a second
  application, in an environment where the chain succeeds, then changes the tail.
\<close>

theorem ForkChoice_failure_counterexample:
  "fst (ForkChoice failing_tail_env fork_pod) = Some (ErrCollaborator ''storage'') \<and>
   tail (snd (ForkChoice failing_tail_env fork_pod)) = block_at 100 1500 [0xAA] [0x10] [7] [7] \<and>
   block_at 101 1515 [0x01] [0xAA] [7] [7] \<in> set (detachedTailBlocks fork_pod) \<and>
   less_block (tail (snd (ForkChoice failing_tail_env fork_pod)))
     (block_at 101 1515 [0x01] [0xAA] [7] [7]) \<and>
   tail (snd (ForkChoice example_env (snd (ForkChoice failing_tail_env fork_pod)))) \<noteq>
     tail (snd (ForkChoice failing_tail_env fork_pod))"
  by (simp add: ForkChoice_fork_pod fork_pod_sel less_block_def byteutils_Less_def block_at_def)


section \<open>LIB finalizer: the walk from the tail\<close>


lemma sint_of_uint64:
  assumes "(w::int64) < 2 ^ 63"
  shows "sint w = uint w"
proof -
  have "uint w < 2 ^ 63" using assms by (simp add: word_less_alt)
  then have "uint w < 9223372036854775808" by simp
  then have "uint w < 9223372036854775808" by simp
  moreover have "0 \<le> uint w" by simp
  ultimately have "sint (word_of_int (uint w) :: int64) = uint w"
    by (intro sint64_of_int) linarith+
  then show ?thesis by (simp only: word_of_int_uint)
qed

lemma sint_of_nat64:
  assumes "n < 2 ^ 63"
  shows "sint (of_nat n :: int64) = int n"
proof -
  have "sint (word_of_int (int n) :: int64) = int n"
    using assms by (intro sint64_of_int) simp_all
  then show ?thesis by simp
qed

lemma sint_ConsensusSize_minus:
  assumes "n \<le> 85"
  shows "sint (ConsensusSize - of_nat n) = 85 - int n"
proof -
  have n: "sint (of_nat n :: int64) = int n" using assms by (intro sint_of_nat64) simp
  have "sint (ConsensusSize - of_nat n) = sint ConsensusSize - sint (of_nat n :: int64)"
    by (rule sint_sub64) (use assms in \<open>simp_all add: n ConsensusSize_def\<close>)
  then show ?thesis by (simp add: n ConsensusSize_def)
qed

lemma ConsensusSize_sle:
  assumes "n \<le> 85"
  shows "(ConsensusSize \<le>s of_nat n) = (85 \<le> n)"
proof -
  have "sint (of_nat n :: int64) = int n" using assms by (intro sint_of_nat64) simp
  then show ?thesis by (simp add: word_sle_eq ConsensusSize_def)
qed

lemma length_insert_le: "length (List.insert x xs) \<le> Suc (length xs)"
  by (simp add: List.insert_def)

lemma setLib_lib:
  "lib (setLib env s b n) = (if StoreLIBHashToStorage env b = None then b else lib s)"
  by (simp add: setLib_def Let_def split: option.splits)





lemma confirmed_block_needs:
  "confirmed_block M d bs = Some b \<Longrightarrow>
   85 \<le> length bs + length (if serial (Timestamp (hd bs)) \<noteq> d then [] else M)"
proof (induction bs arbitrary: M d)
  case Nil
  then show ?case by simp
next
  case (Cons b0 bs)
  define M1 where "M1 = (if serial (Timestamp b0) \<noteq> d then [] else M)"
  define M2 where "M2 = List.insert (Proposer (ConsensusRoot b0)) M1"
  have l: "length M2 \<le> Suc (length M1)" unfolding M2_def by (rule length_insert_le)
  show ?case
  proof (cases "85 \<le> length M2")
    case True
    with l show ?thesis by (simp add: M1_def)
  next
    case False
    with Cons.prems have r: "confirmed_block M2 (serial (Timestamp b0)) bs = Some b"
      by (simp add: Let_def M1_def M2_def ConsensusSize_def)
    from Cons.IH [OF r]
    have "85 \<le> length bs + length M2" by (simp split: if_splits)
    with l show ?thesis by (simp add: M1_def)
  qed
qed

lemma heights_above:
  "sorted_wrt (\<lambda>a b. Height b < Height a) (c # rest) \<Longrightarrow>
   \<forall>b\<in>set (c # rest). hl < Height b \<Longrightarrow>
   unat hl + length (c # rest) \<le> unat (Height c)"
proof (induction rest arbitrary: c)
  case Nil
  then show ?case by (simp add: word_less_nat_alt)
next
  case (Cons c2 rest)
  have "unat hl + length (c2 # rest) \<le> unat (Height c2)"
    using Cons.prems by (intro Cons.IH) simp_all
  moreover have "unat (Height c2) < unat (Height c)"
    using Cons.prems(1) by (simp add: word_less_nat_alt)
  ultimately show ?case by simp
qed

lemma sint_height_diff:
  assumes "(hc::int64) < 2 ^ 63" and "(hl::int64) < 2 ^ 63"
  shows "sint (hc - hl) = uint hc - uint hl"
proof -
  have c: "sint hc = uint hc" and l: "sint hl = uint hl"
    using assms by (simp_all add: sint_of_uint64)
  have b: "uint hc < 9223372036854775808" "uint hl < 9223372036854775808"
    using sint64_upper [of hc] sint64_upper [of hl] by (simp_all add: c l)
  have n: "0 \<le> uint hc" "0 \<le> uint hl" by simp_all
  have "sint (hc - hl) = sint hc - sint hl"
  proof (rule sint_sub64)
    show "- 9223372036854775808 \<le> sint hc - sint hl" unfolding c l using b n by linarith
    show "sint hc - sint hl < 9223372036854775808" unfolding c l using b n by linarith
  qed
  then show ?thesis by (simp only: c l)
qed

lemma prune_not_fired:
  assumes "(hc::int64) < 2 ^ 63" and "hl < hc" and "m < 85"
    and "85 + unat hl \<le> unat hc + m"
  shows "\<not> (hc - hl <s ConsensusSize - of_nat m)"
proof -
  have "hl < 2 ^ 63" using assms(1,2) by (rule order_less_trans [rotated])
  then have d: "sint (hc - hl) = uint hc - uint hl"
    using assms(1) by (intro sint_height_diff)
  have e: "sint (ConsensusSize - of_nat m) = 85 - int m"
    using assms(3) by (intro sint_ConsensusSize_minus) simp
  have "85 + int (unat hl) \<le> int (unat hc) + int m" using assms(4) by linarith
  then have "\<not> (uint hc - uint hl < 85 - int m)" unfolding uint_nat by linarith
  then show ?thesis by (simp add: word_sless_alt d e)
qed


lemma UpdateLIB_loop_step:
  assumes "Hash cur \<noteq> Hash libBlock"
    and "\<not> (Height cur - Height libBlock <s
            ConsensusSize - of_nat (length (if serial (Timestamp cur) \<noteq> dynasty then [] else miners)))"
  shows "UpdateLIB_loop env s libBlock cur miners dynasty =
      (if ConsensusSize \<le>s of_nat (length (List.insert (Proposer (ConsensusRoot cur))
              (if serial (Timestamp cur) \<noteq> dynasty then [] else miners)))
       then Some (setLib env s cur (length (List.insert (Proposer (ConsensusRoot cur))
              (if serial (Timestamp cur) \<noteq> dynasty then [] else miners))))
       else case blocks s (ParentHash cur) of
              None \<Rightarrow> Some s
            | Some parent \<Rightarrow>
                if CheckGenesisBlock env parent then Some s
                else UpdateLIB_loop env s libBlock parent
                       (List.insert (Proposer (ConsensusRoot cur))
                          (if serial (Timestamp cur) \<noteq> dynasty then [] else miners))
                       (serial (Timestamp cur)))"
proof -
  have d: "(if serial (Timestamp cur) \<noteq> dynasty then serial (Timestamp cur) else dynasty) =
      serial (Timestamp cur)" by simp
  show ?thesis
    using assms
    by (subst UpdateLIB_loop.simps) (simp only: Let_def serial_def [symmetric] d if_False)
qed

lemma UpdateLIB_loop_confirmed:
  assumes "parent_path s (cur # rest)"
    and "\<forall>b\<in>set (cur # rest). Hash b \<noteq> Hash libBlock"
    and "\<forall>b\<in>set rest. \<not> CheckGenesisBlock env b"
    and "sorted_wrt (\<lambda>a b. Height b < Height a) (cur # rest)"
    and "\<forall>b\<in>set (cur # rest). Height libBlock < Height b \<and> Height b < 2 ^ 63"
    and "confirmed_block miners dynasty (cur # rest) = Some b"
    and "length miners < 85"
  shows "\<exists>n. UpdateLIB_loop env s libBlock cur miners dynasty = Some (setLib env s b n)"
  using assms
proof (induction rest arbitrary: cur miners dynasty)
  case (Nil cur miners dynasty)
  note p = Nil.prems
  define miners1 where "miners1 = (if serial (Timestamp cur) \<noteq> dynasty then [] else miners)"
  define miners2 where "miners2 = List.insert (Proposer (ConsensusRoot cur)) miners1"
  have l1: "length miners1 < 85" using p(7) by (simp add: miners1_def)
  have l2: "length miners2 \<le> 85"
    using l1 length_insert_le [of "Proposer (ConsensusRoot cur)" miners1] by (simp add: miners2_def)
  have fire: "85 \<le> length miners2 \<and> b = cur"
    using p(6) by (simp add: Let_def miners1_def miners2_def ConsensusSize_def split: if_splits)
  have need: "85 \<le> length [cur] + length miners1"
    using confirmed_block_needs [OF p(6)] by (simp add: miners1_def)
  have ha: "unat (Height libBlock) + length [cur] \<le> unat (Height cur)"
    using p(4,5) by (intro heights_above) simp_all
  have np: "\<not> (Height cur - Height libBlock <s ConsensusSize - of_nat (length miners1))"
    using p(5) l1 need ha by (intro prune_not_fired) simp_all
  have nl: "Hash cur \<noteq> Hash libBlock" using p(2) by simp
  note unf = UpdateLIB_loop_step [of cur libBlock dynasty miners env s,
      folded miners1_def, folded miners2_def, OF nl np]
  have c: "ConsensusSize \<le>s of_nat (length miners2)"
    using fire by (simp only: ConsensusSize_sle [OF l2])
  have "UpdateLIB_loop env s libBlock cur miners dynasty = Some (setLib env s cur (length miners2))"
    by (simp only: unf c if_True)
  with fire show ?case by blast
next
  case (Cons c2 rest cur miners dynasty)
  note p = Cons.prems
  define miners1 where "miners1 = (if serial (Timestamp cur) \<noteq> dynasty then [] else miners)"
  define miners2 where "miners2 = List.insert (Proposer (ConsensusRoot cur)) miners1"
  have l1: "length miners1 < 85" using p(7) by (simp add: miners1_def)
  have l2: "length miners2 \<le> 85"
    using l1 length_insert_le [of "Proposer (ConsensusRoot cur)" miners1] by (simp add: miners2_def)
  have need: "85 \<le> length (cur # c2 # rest) + length miners1"
    using confirmed_block_needs [OF p(6)] by (simp add: miners1_def)
  have ha: "unat (Height libBlock) + length (cur # c2 # rest) \<le> unat (Height cur)"
    using p(4,5) by (intro heights_above) simp_all
  have np: "\<not> (Height cur - Height libBlock <s ConsensusSize - of_nat (length miners1))"
    using p(5) l1 need ha by (intro prune_not_fired) simp_all
  have nl: "Hash cur \<noteq> Hash libBlock" using p(2) by simp
  note unf = UpdateLIB_loop_step [of cur libBlock dynasty miners env s,
      folded miners1_def, folded miners2_def, OF nl np]
  show ?case
  proof (cases "85 \<le> length miners2")
    case True
    then have "b = cur"
      using p(6) by (simp add: Let_def miners1_def miners2_def ConsensusSize_def)
    moreover have c: "ConsensusSize \<le>s of_nat (length miners2)"
      using True by (simp only: ConsensusSize_sle [OF l2])
    have "UpdateLIB_loop env s libBlock cur miners dynasty =
        Some (setLib env s cur (length miners2))"
      by (simp only: unf c if_True)
    ultimately show ?thesis by blast
  next
    case False
    then have l2': "length miners2 < 85" by simp
    have c: "\<not> ConsensusSize \<le>s of_nat (length miners2)"
      using False by (simp only: ConsensusSize_sle [OF l2] not_False_eq_True)
    have r: "confirmed_block miners2 (serial (Timestamp cur)) (c2 # rest) = Some b"
      using p(6) False by (simp add: Let_def miners1_def miners2_def ConsensusSize_def)
    have par: "blocks s (ParentHash cur) = Some c2" using p(1) by simp
    have ng: "\<not> CheckGenesisBlock env c2" using p(3) by simp
    have "\<exists>n. UpdateLIB_loop env s libBlock c2 miners2 (serial (Timestamp cur)) =
        Some (setLib env s b n)"
      using p(1,2,3,4,5) r l2' by (intro Cons.IH) simp_all
    moreover have "UpdateLIB_loop env s libBlock cur miners dynasty =
        UpdateLIB_loop env s libBlock c2 miners2 (serial (Timestamp cur))"
      by (simp only: unf c if_False par ng option.case)
    ultimately show ?thesis by simp
  qed
qed



lemma parent_path_blocks:
  "blocks s1 = blocks s \<Longrightarrow> parent_path s1 p = parent_path s p"
  by (induction s p rule: parent_path.induct) simp_all

lemma UpdateLIB_unfold:
  "\<exists>s1. UpdateLIB env s r = UpdateLIB_loop env s1 (lib s) (tail s) [] (- 1) \<and>
        lib s1 = lib s \<and> tail s1 = tail s \<and> blocks s1 = blocks s"
proof -
  define s1 where "s1 =
            (if enable s \<and> NodeUpdateAtHeight env (Height (tail s)) then
               (if fst (isProposer env (Timestamp (tail s)) (miner s)) then
                  (case broadcastWitness env r of
                     Some e \<Rightarrow> s
                   | None \<Rightarrow>
                       s\<lparr>operations := operations s @ [OpBroadcastWitness r]\<rparr>)
                else s)
             else s)"
  have e: "lib s1 = lib s \<and> tail s1 = tail s \<and> blocks s1 = blocks s"
    by (simp add: s1_def split: option.splits)
  have "UpdateLIB env s r = UpdateLIB_loop env s1 (lib s1) (tail s1) [] (- 1)"
    by (simp only: UpdateLIB_def Let_def s1_def)
  then have "UpdateLIB env s r = UpdateLIB_loop env s1 (lib s) (tail s) [] (- 1)"
    by (simp only: e)
  with e show ?thesis by blast
qed

lemma UpdateLIB_reaches_setLib:
  assumes "walk_from_tail env s p" and "heights_descend s p"
    and "confirmed_block [] (- 1) p = Some b"
  shows "\<exists>s1 n. UpdateLIB env s r = Some (setLib env s1 b n) \<and> lib s1 = lib s"
proof -
  from UpdateLIB_unfold [of env s r] obtain s1 where
    u: "UpdateLIB env s r = UpdateLIB_loop env s1 (lib s) (tail s) [] (- 1)"
    and e: "lib s1 = lib s" "tail s1 = tail s" "blocks s1 = blocks s" by blast
  from assms(1) obtain rest where p: "p = tail s # rest"
    by (cases p) (auto simp add: walk_from_tail_def)
  have "\<exists>n. UpdateLIB_loop env s1 (lib s) (tail s) [] (- 1) = Some (setLib env s1 b n)"
  proof (rule UpdateLIB_loop_confirmed)
    show "parent_path s1 (tail s # rest)"
      using assms(1) by (simp add: walk_from_tail_def p parent_path_blocks [OF e(3)])
    show "\<forall>b\<in>set (tail s # rest). Hash b \<noteq> Hash (lib s)"
      using assms(1) by (simp add: walk_from_tail_def p list_all_iff)
    show "\<forall>b\<in>set rest. \<not> CheckGenesisBlock env b"
      using assms(1) by (simp add: walk_from_tail_def p list_all_iff)
    show "sorted_wrt (\<lambda>a b. Height b < Height a) (tail s # rest)"
      using assms(2) by (simp add: heights_descend_def p)
    show "\<forall>b\<in>set (tail s # rest). Height (lib s) < Height b \<and> Height b < 2 ^ 63"
      using assms(2) by (simp add: heights_descend_def p list_all_iff)
    show "confirmed_block [] (- 1) (tail s # rest) = Some b"
      using assms(3) by (simp add: p)
    show "length ([] :: bytes list) < 85" by simp
  qed
  with u e(1) show ?thesis by auto
qed

text \<open>
  Within one run of equal dynasty serial \<open>confirmed_block\<close> is a statement about sets: it
  yields the last block of a walk whose proposers number at least \<open>ConsensusSize\<close> while
  those of the walk without its last block number fewer.
\<close>

lemma confirmed_block_run:
  assumes "distinct M" and "\<forall>x\<in>set p. serial (Timestamp x) = d" and "p \<noteq> []"
    and "d' = d \<or> M = []"
    and "card (set M \<union> (\<lambda>x. Proposer (ConsensusRoot x)) ` set (butlast p)) < 85"
    and "85 \<le> card (set M \<union> (\<lambda>x. Proposer (ConsensusRoot x)) ` set p)"
  shows "confirmed_block M d' p = Some (last p)"
  using assms
proof (induction p arbitrary: M d')
  case Nil
  then show ?case by simp
next
  case (Cons x xs)
  let ?P = "\<lambda>x. Proposer (ConsensusRoot x)"
  define M2 where "M2 = List.insert (?P x) M"
  have sx: "serial (Timestamp x) = d" using Cons.prems(2) by simp
  have e: "(if d \<noteq> d' then [] else M) = M"
    using Cons.prems(4) by auto
  have unf: "confirmed_block M d' (x # xs) =
      (if 85 \<le> length M2 then Some x else confirmed_block M2 d xs)"
    by (simp only: confirmed_block.simps Let_def e sx M2_def) (simp add: ConsensusSize_def)
  have d2: "distinct M2" using Cons.prems(1) by (simp add: M2_def)
  have s2: "set M2 = insert (?P x) (set M)" by (simp add: M2_def)
  have l2: "length M2 = card (insert (?P x) (set M))"
    using distinct_card [OF d2] by (simp add: s2)
  show ?case
  proof (cases "xs = []")
    case True
    with Cons.prems(6) have "85 \<le> length M2" by (simp add: l2)
    then have "confirmed_block M d' (x # xs) = Some x" by (simp only: unf if_True)
    then show ?thesis using True by simp
  next
    case False
    have "card (insert (?P x) (set M)) \<le> card (set M \<union> ?P ` set (butlast (x # xs)))"
      using False by (intro card_mono) auto
    with Cons.prems(5) have nf: "\<not> 85 \<le> length M2" by (simp add: l2)
    have "confirmed_block M2 d xs = Some (last xs)"
    proof (rule Cons.IH)
      show "distinct M2" by (rule d2)
      show "\<forall>x\<in>set xs. serial (Timestamp x) = d" using Cons.prems(2) by simp
      show "xs \<noteq> []" by (rule False)
      show "d = d \<or> M2 = []" by simp
      have "set M2 \<union> ?P ` set (butlast xs) = set M \<union> ?P ` set (butlast (x # xs))"
        using False by (auto simp add: s2)
      with Cons.prems(5) show "card (set M2 \<union> ?P ` set (butlast xs)) < 85" by simp
      have "set M2 \<union> ?P ` set xs = set M \<union> ?P ` set (x # xs)"
        by (auto simp add: s2)
      with Cons.prems(6) show "85 \<le> card (set M2 \<union> ?P ` set xs)" by simp
    qed
    moreover have "confirmed_block M d' (x # xs) = confirmed_block M2 d xs"
      using nf by (simp only: unf if_False)
    ultimately show ?thesis using False by simp
  qed
qed

lemma confirmed_block_one_run:
  assumes "\<forall>x\<in>set p. serial (Timestamp x) = d" and "p \<noteq> []"
    and "card ((\<lambda>x. Proposer (ConsensusRoot x)) ` set (butlast p)) < unat ConsensusSize"
    and "unat ConsensusSize \<le> card ((\<lambda>x. Proposer (ConsensusRoot x)) ` set p)"
  shows "confirmed_block [] (- 1) p = Some (last p)"
  using assms by (intro confirmed_block_run [where d = d]) (simp_all add: ConsensusSize_def)


lemma UpdateLIB_one_run:
  assumes "walk_from_tail env s p" and "heights_descend s p"
    and "\<forall>x\<in>set p. serial (Timestamp x) = d"
    and "card ((\<lambda>x. Proposer (ConsensusRoot x)) ` set (butlast p)) < unat ConsensusSize"
    and "unat ConsensusSize \<le> card ((\<lambda>x. Proposer (ConsensusRoot x)) ` set p)"
    and "StoreLIBHashToStorage env (last p) = None"
  shows "\<exists>s'. UpdateLIB env s r = Some s' \<and> lib s' = last p"
proof -
  from assms(1) have ne: "p \<noteq> []" by (auto simp add: walk_from_tail_def)
  from confirmed_block_one_run [OF assms(3) ne assms(4) assms(5)]
  have c: "confirmed_block [] (- 1) p = Some (last p)" .
  from UpdateLIB_reaches_setLib [OF assms(1) assms(2) c, of r]
  obtain s1 n where "UpdateLIB env s r = Some (setLib env s1 (last p) n)" by blast
  moreover have "lib (setLib env s1 (last p) n) = last p" using assms(6) by (simp add: setLib_lib)
  ultimately show ?thesis by blast
qed













end
